theory Spec2Isabelle
  imports Main "HOL-Library.Word"
begin

unbundle bit_operations_syntax

section \<open>Data model of \<open>src/device/i2c_gpio.c\<close>\<close>

text \<open>
  The enum of transmitter roles. The field \<open>transmit\<close> is a \<open>uint8_t\<close> that
  \<open>memset\<close> leaves at 0, a value that is neither of the two roles, so the field is
  kept as a byte and the two enumerators are byte constants.
\<close>

definition TRANSMITTER_SLAVE :: "8 word" where
  "TRANSMITTER_SLAVE = 1"

definition TRANSMITTER_MASTER :: "8 word" where
  "TRANSMITTER_MASTER = 2"

text \<open>The wire-level states, in the order of the enum (\<open>I2C_IDLE = 0\<close>).\<close>

datatype i2c_state =
    I2C_IDLE
  | I2C_RECEIVE
  | I2C_RECEIVE_WAIT
  | I2C_TRANSMIT_START
  | I2C_TRANSMIT
  | I2C_ACKNOWLEDGE
  | I2C_TRANSACKNOWLEDGE
  | I2C_TRANSMIT_WAIT

text \<open>The byte-level states, in the order of the enum (\<open>SLAVE_IDLE = 0\<close>).\<close>

datatype slave_state_t =
    SLAVE_IDLE
  | SLAVE_RECEIVEADDR
  | SLAVE_RECEIVEDATA
  | SLAVE_SENDDATA
  | SLAVE_INVALID

text \<open>
  \<open>i2c_gpio_t\<close> without the two pointers \<open>bus_name\<close> and \<open>i2c\<close>: the bus handle is
  fixed for the life of the device and is represented by the directory parameter below.
\<close>

record i2c_gpio_t =
  scl :: "8 word"
  sda :: "8 word"
  state :: i2c_state
  slave_state :: slave_state_t
  slave_addr :: "8 word"
  slave_rw :: "8 word"
  last_sda :: "8 word"
  pos :: "8 word"
  transmit :: "8 word"
  byte :: "8 word"

subsection \<open>The bus directory (\<open>86box/i2c.h\<close>)\<close>

text \<open>
  The functions \<open>i2c_has_device\<close>, \<open>i2c_start\<close>, \<open>i2c_stop\<close>, \<open>i2c_read\<close> and
  \<open>i2c_write\<close> are declared in \<open>86box/i2c.h\<close> and are not part of this file. Every call
  is recorded, in order, in a list of events; what the two calls with a result return is a
  parameter: \<open>has_device\<close> says which addresses have a device, and \<open>read_byte\<close> gives the
  byte \<open>i2c_read\<close> returns, as a function of all the calls made before it and the address.
\<close>

datatype event =
    HasDevice "8 word"
  | Start "8 word"
  | Stop "8 word"
  | Read "8 word" "8 word"
  | Write "8 word" "8 word"

record directory =
  has_device :: "8 word \<Rightarrow> bool"
  read_byte :: "event list \<Rightarrow> 8 word \<Rightarrow> 8 word"

type_synonym bus = "i2c_gpio_t \<times> event list"

section \<open>The operations\<close>

text \<open>
  \<open>i2c_gpio_init\<close>: \<open>memset\<close> to 0, then \<open>scl = sda = 1\<close> and \<open>slave_addr = 0xff\<close>.
\<close>

definition i2c_gpio_init :: i2c_gpio_t where
  "i2c_gpio_init =
     \<lparr> scl = 1, sda = 1, state = I2C_IDLE, slave_state = SLAVE_IDLE, slave_addr = 0xff,
       slave_rw = 0, last_sda = 0, pos = 0, transmit = 0, byte = 0 \<rparr>"

text \<open>\<open>i2c_gpio_next_byte\<close>: \<open>dev->byte = i2c_read(dev->i2c, dev->slave_addr)\<close>.\<close>

definition i2c_gpio_next_byte :: "directory \<Rightarrow> bus \<Rightarrow> bus" where
  "i2c_gpio_next_byte D s =
     (case s of (dev, tr) \<Rightarrow>
        let v = read_byte D tr (slave_addr dev)
        in (dev\<lparr>byte := v\<rparr>, tr @ [Read (slave_addr dev) v]))"

text \<open>
  \<open>i2c_gpio_write\<close>: the byte-level switch. \<open>SLAVE_SENDDATA\<close> and \<open>SLAVE_INVALID\<close>
  have no case and fall out of the switch.
\<close>

definition i2c_gpio_write :: "directory \<Rightarrow> bus \<Rightarrow> bus" where
  "i2c_gpio_write D s =
     (case s of (dev, tr) \<Rightarrow>
        (case slave_state dev of
           SLAVE_IDLE \<Rightarrow>
             let i = slave_addr dev;
                 dev1 = dev\<lparr>slave_addr := drop_bit 1 (byte dev), slave_rw := byte dev AND 1\<rparr>;
                 tr1 = tr @ [HasDevice (slave_addr dev1)]
             in if \<not> has_device D (slave_addr dev1)
                then (dev1\<lparr>slave_state := SLAVE_INVALID\<rparr>, tr1)
                else
                  let tr2 = (if i = 0xff then tr1 @ [Start (slave_addr dev1)] else tr1)
                  in if slave_rw dev1 \<noteq> 0
                     then
                       let v = read_byte D tr2 (slave_addr dev1)
                       in (dev1\<lparr>slave_state := SLAVE_SENDDATA,
                                transmit := TRANSMITTER_SLAVE, byte := v\<rparr>,
                           tr2 @ [Read (slave_addr dev1) v])
                     else (dev1\<lparr>slave_state := SLAVE_RECEIVEADDR,
                                 transmit := TRANSMITTER_MASTER\<rparr>, tr2)
         | SLAVE_RECEIVEADDR \<Rightarrow>
             (dev\<lparr>slave_state :=
                    (if slave_rw dev \<noteq> 0 then SLAVE_SENDDATA else SLAVE_RECEIVEDATA)\<rparr>,
              tr @ [Write (slave_addr dev) (byte dev)])
         | SLAVE_RECEIVEDATA \<Rightarrow> (dev, tr @ [Write (slave_addr dev) (byte dev)])
         | SLAVE_SENDDATA \<Rightarrow> (dev, tr)
         | SLAVE_INVALID \<Rightarrow> (dev, tr)))"

text \<open>\<open>i2c_gpio_stop\<close>.\<close>

definition i2c_gpio_stop :: "bus \<Rightarrow> bus" where
  "i2c_gpio_stop s =
     (case s of (dev, tr) \<Rightarrow>
        (dev\<lparr>slave_addr := 0xff, slave_state := SLAVE_IDLE, transmit := TRANSMITTER_MASTER\<rparr>,
         if slave_addr dev \<noteq> 0xff then tr @ [Stop (slave_addr dev)] else tr))"

text \<open>
  The three statements after the switch of \<open>i2c_gpio_set\<close>; \<open>d\<close> is the local \<open>sda\<close>
  as the switch left it.
\<close>

definition set_tail :: "bus \<Rightarrow> 8 word \<Rightarrow> 8 word \<Rightarrow> bus" where
  "set_tail s c d =
     (case s of (dev, tr) \<Rightarrow>
        ((if scl dev = 0 \<and> c \<noteq> 0 then dev\<lparr>sda := d\<rparr> else dev)\<lparr>last_sda := d, scl := c\<rparr>, tr))"

text \<open>
  The body of \<open>case I2C_RECEIVE\<close>, which \<open>case I2C_RECEIVE_WAIT\<close> falls into. The
  counter is a \<open>uint8_t\<close>, so \<open>++dev->pos\<close> wraps.
\<close>

definition case_receive :: "directory \<Rightarrow> bus \<Rightarrow> 8 word \<Rightarrow> 8 word \<Rightarrow> bus" where
  "case_receive D s c d =
     (case s of (dev, tr) \<Rightarrow>
        if scl dev = 0 \<and> c \<noteq> 0 then
          let b1 = push_bit 1 (byte dev);
              b2 = (if d \<noteq> 0 then b1 OR 1 else b1 AND 0xfe);
              dev1 = dev\<lparr>byte := b2, pos := pos dev + 1\<rparr>
          in if pos dev1 = 8
             then (case i2c_gpio_write D (dev1, tr) of
                     (dev2, tr2) \<Rightarrow> (dev2\<lparr>state := I2C_ACKNOWLEDGE\<rparr>, tr2))
             else (dev1, tr)
        else if scl dev \<noteq> 0 \<and> c \<noteq> 0 then
          if d \<noteq> 0 \<and> last_sda dev = 0 then i2c_gpio_stop (dev\<lparr>state := I2C_IDLE\<rparr>, tr)
          else if d = 0 \<and> last_sda dev \<noteq> 0 then (dev\<lparr>pos := 0, slave_state := SLAVE_IDLE\<rparr>, tr)
          else (dev, tr)
        else (dev, tr))"

text \<open>
  The body of \<open>case I2C_TRANSMIT\<close>, which \<open>case I2C_TRANSMIT_START\<close> falls into. On a
  rising clock it returns from \<open>i2c_gpio_set\<close> at once (\<open>Inl\<close>); otherwise it breaks
  out of the switch (\<open>Inr\<close>) and the statements after the switch run.
\<close>

definition case_transmit :: "bus \<Rightarrow> 8 word \<Rightarrow> bus + bus" where
  "case_transmit s c =
     (case s of (dev, tr) \<Rightarrow>
        if scl dev = 0 \<and> c \<noteq> 0 then
          Inl (dev\<lparr>scl := c, sda := byte dev AND 0x80,
                   byte := push_bit 1 (byte dev), pos := pos dev + 1\<rparr>, tr)
        else if scl dev \<noteq> 0 \<and> c = 0 \<and> pos dev = 8 then
          Inr (dev\<lparr>state := I2C_TRANSACKNOWLEDGE\<rparr>, tr)
        else Inr (dev, tr))"

text \<open>\<open>i2c_gpio_set\<close>: one call with the levels \<open>c\<close> (\<open>scl\<close>) and \<open>d\<close> (\<open>sda\<close>).\<close>

definition i2c_gpio_set :: "directory \<Rightarrow> bus \<Rightarrow> 8 word \<Rightarrow> 8 word \<Rightarrow> bus" where
  "i2c_gpio_set D s c d =
     (case s of (dev, tr) \<Rightarrow>
        (case state dev of
           I2C_IDLE \<Rightarrow>
             set_tail
               (if c \<noteq> 0 \<and> last_sda dev \<noteq> 0 \<and> d = 0
                then (dev\<lparr>state := I2C_RECEIVE, pos := 0\<rparr>, tr) else (dev, tr)) c d
         | I2C_RECEIVE_WAIT \<Rightarrow>
             set_tail
               (case_receive D
                  (if scl dev = 0 \<and> c \<noteq> 0 then dev\<lparr>state := I2C_RECEIVE\<rparr> else dev, tr) c d) c d
         | I2C_RECEIVE \<Rightarrow> set_tail (case_receive D (dev, tr) c d) c d
         | I2C_ACKNOWLEDGE \<Rightarrow>
             if scl dev = 0 \<and> c \<noteq> 0
             then set_tail
                    (dev\<lparr>pos := 0,
                         state := (if transmit dev = TRANSMITTER_MASTER
                                   then I2C_RECEIVE_WAIT else I2C_TRANSMIT)\<rparr>, tr) c 0
             else set_tail (dev, tr) c d
         | I2C_TRANSACKNOWLEDGE \<Rightarrow>
             if scl dev = 0 \<and> c \<noteq> 0 then
               if d \<noteq> 0 then set_tail (i2c_gpio_stop (dev\<lparr>state := I2C_IDLE\<rparr>, tr)) c d
               else
                 (case i2c_gpio_next_byte D (dev\<lparr>state := I2C_TRANSMIT_START\<rparr>, tr) of
                    (dev1, tr1) \<Rightarrow> set_tail (dev1\<lparr>pos := 0\<rparr>, tr1) c d)
             else set_tail (dev, tr) c d
         | I2C_TRANSMIT_WAIT \<Rightarrow>
             if scl dev \<noteq> 0 \<and> c \<noteq> 0 then
               let s1 = (if last_sda dev \<noteq> 0 \<and> d = 0
                         then (case i2c_gpio_next_byte D (dev, tr) of
                                 (dev1, tr1) \<Rightarrow> (dev1\<lparr>pos := 0\<rparr>, tr1))
                         else (dev, tr));
                   s2 = (if last_sda (fst s1) = 0 \<and> d \<noteq> 0
                         then i2c_gpio_stop ((fst s1)\<lparr>state := I2C_IDLE\<rparr>, snd s1)
                         else s1)
               in set_tail s2 c d
             else set_tail (dev, tr) c d
         | I2C_TRANSMIT_START \<Rightarrow>
             let dev1 = (if scl dev = 0 \<and> c \<noteq> 0 then dev\<lparr>state := I2C_TRANSMIT\<rparr> else dev);
                 s2 = (if scl dev1 \<noteq> 0 \<and> c \<noteq> 0 \<and> last_sda dev1 = 0 \<and> d \<noteq> 0
                       then i2c_gpio_stop (dev1\<lparr>state := I2C_IDLE\<rparr>, tr)
                       else (dev1, tr))
             in (case case_transmit s2 c of Inl r \<Rightarrow> r | Inr b \<Rightarrow> set_tail b c d)
         | I2C_TRANSMIT \<Rightarrow>
             (case case_transmit (dev, tr) c of Inl r \<Rightarrow> r | Inr b \<Rightarrow> set_tail b c d)))"

text \<open>\<open>i2c_gpio_get_scl\<close> and \<open>i2c_gpio_get_sda\<close>.\<close>

definition i2c_gpio_get_scl :: "i2c_gpio_t \<Rightarrow> 8 word" where
  "i2c_gpio_get_scl dev = scl dev"

definition i2c_gpio_get_sda :: "i2c_gpio_t \<Rightarrow> 8 word" where
  "i2c_gpio_get_sda dev =
     (if state dev = I2C_TRANSMIT \<or> state dev = I2C_ACKNOWLEDGE then sda dev
      else if state dev = I2C_RECEIVE_WAIT then 0
      else 1)"

text \<open>A sequence of calls of \<open>i2c_gpio_set\<close>, one per pair of levels.\<close>

type_synonym edge = "8 word \<times> 8 word"

fun feed :: "directory \<Rightarrow> bus \<Rightarrow> edge list \<Rightarrow> bus" where
  "feed D s [] = s"
| "feed D s (e # es) = feed D (i2c_gpio_set D s (fst e) (snd e)) es"


section \<open>Framing of bytes on the two wires\<close>

text \<open>
  What a bus master feeds to \<open>i2c_gpio_set\<close>. A logic level is 0 (pulled low) or 1
  (released). A bit is one clock pulse: one or more calls with the clock low, with any
  data levels, then a call with the clock high and the bit on the data line. A byte is
  eight pulses, most significant bit first, and a ninth pulse for the acknowledge bit.
\<close>

definition level :: "bool \<Rightarrow> 8 word" where
  "level b = (if b then 1 else 0)"

definition bits8 :: "8 word \<Rightarrow> bool list" where
  "bits8 v = map (bit v) [7, 6, 5, 4, 3, 2, 1, 0]"

definition clk_pulse :: "8 word list \<Rightarrow> 8 word \<Rightarrow> edge list" where
  "clk_pulse lows d = map (Pair 0) lows @ [(1, d)]"

fun pulses :: "(8 word list \<times> 8 word) list \<Rightarrow> edge list" where
  "pulses [] = []"
| "pulses (p # ps) = clk_pulse (fst p) (snd p) @ pulses ps"

definition send_byte :: "8 word list list \<Rightarrow> 8 word \<Rightarrow> edge list" where
  "send_byte ls v = pulses (zip ls (map level (bits8 v)))"

text \<open>
  Start: the data line falls while the clock is high. Stop: the data line is low when the
  clock rises, and rises while the clock is high. Repeated start: the data line is high
  when the clock rises, and falls while the clock is high.
\<close>

definition start_cond :: "edge list" where
  "start_cond = [(1, 1), (1, 0)]"

definition stop_cond :: "8 word list \<Rightarrow> edge list" where
  "stop_cond lows = map (Pair 0) lows @ [(0, 0), (1, 0), (1, 1)]"

definition rep_start :: "8 word list \<Rightarrow> edge list" where
  "rep_start lows = map (Pair 0) lows @ [(0, 1), (1, 1), (1, 0)]"

text \<open>The address byte: the 7-bit address in the top bits, the direction in bit 0.\<close>

definition addr_byte :: "8 word \<Rightarrow> bool \<Rightarrow> 8 word" where
  "addr_byte a rd = push_bit 1 a OR (if rd then 1 else 0)"

text \<open>
  A byte sent by the master with its acknowledge pulse: the data levels fed while the
  clock is low before each of the eight bits (\<open>bit_lows\<close>), the byte, the levels fed
  while the clock is low before the ninth pulse, and the data level the master feeds at
  the rising edge of the ninth pulse (the code overwrites it with 0).
\<close>

record wr_frame =
  bit_lows :: "8 word list list"
  payload :: "8 word"
  ack_lows :: "8 word list"
  ack_level :: "8 word"

definition wr_frame_ok :: "wr_frame \<Rightarrow> bool" where
  "wr_frame_ok f =
     (length (bit_lows f) = 8 \<and> [] \<notin> set (bit_lows f) \<and> ack_lows f \<noteq> [])"

definition wr_frame_edges :: "wr_frame \<Rightarrow> edge list" where
  "wr_frame_edges f =
     send_byte (bit_lows f) (payload f) @ clk_pulse (ack_lows f) (ack_level f)"

text \<open>
  The usual timing: each bit is put on the data line with the clock low and the clock is
  then raised; for the acknowledge pulse the master releases the data line.
\<close>

definition std_frame :: "8 word \<Rightarrow> wr_frame" where
  "std_frame v =
     \<lparr> bit_lows = map (\<lambda>b. [level b]) (bits8 v), payload = v, ack_lows = [1], ack_level = 1 \<rparr>"

text \<open>
  A write transaction: start, the address frame, the data frames, stop.
\<close>

definition write_txn :: "wr_frame \<Rightarrow> wr_frame list \<Rightarrow> 8 word list \<Rightarrow> edge list" where
  "write_txn af dfs sl =
     start_cond @ wr_frame_edges af @ concat (map wr_frame_edges dfs) @ stop_cond sl"

section \<open>Read transactions and what the master sees\<close>

text \<open>
  A byte sent by the device: eight clock pulses, during which the master may feed any
  data levels, and a ninth pulse at whose rising edge the master feeds its acknowledge:
  0 to ask for another byte, a high level after the last byte.
\<close>

record rd_frame =
  bit_pulses :: "(8 word list \<times> 8 word) list"
  mack_lows :: "8 word list"
  mack_level :: "8 word"

definition rd_frame_ok :: "rd_frame \<Rightarrow> bool" where
  "rd_frame_ok f =
     (length (bit_pulses f) = 8 \<and> [] \<notin> set (map fst (bit_pulses f)) \<and> mack_lows f \<noteq> [])"

definition rd_frame_edges :: "rd_frame \<Rightarrow> edge list" where
  "rd_frame_edges f = pulses (bit_pulses f) @ clk_pulse (mack_lows f) (mack_level f)"

definition read_txn :: "wr_frame \<Rightarrow> rd_frame list \<Rightarrow> 8 word list \<Rightarrow> edge list" where
  "read_txn af rfs sl =
     start_cond @ wr_frame_edges af @ concat (map rd_frame_edges rfs) @ stop_cond sl"

text \<open>
  The usual timing of a read: the master releases the data line during the eight bits and
  feeds the acknowledge level \<open>m\<close> with the clock low before the ninth pulse.
\<close>

definition std_rd_frame :: "8 word \<Rightarrow> rd_frame" where
  "std_rd_frame m = \<lparr> bit_pulses = replicate 8 ([1], 1), mack_lows = [m], mack_level = m \<rparr>"

text \<open>
  The bytes that \<open>n\<close> successive calls of \<open>i2c_read\<close> for the address \<open>a\<close> return, the
  first one made after the calls \<open>tr\<close>.
\<close>

fun reads :: "directory \<Rightarrow> 8 word \<Rightarrow> event list \<Rightarrow> nat \<Rightarrow> 8 word list" where
  "reads D a tr 0 = []"
| "reads D a tr (Suc n) = read_byte D tr a # reads D a (tr @ [Read a (read_byte D tr a)]) n"

text \<open>
  What the directory and the master see, on one time line: every directory call, and the
  level \<open>i2c_gpio_get_sda\<close> returns after each call of \<open>i2c_gpio_set\<close> that is a rising
  clock edge received in the wire state TRANSMIT or TRANSMIT_START (the edges on which the
  code puts a bit of the byte on the data line). \<open>emitted\<close> is the list of directory calls
  one call of \<open>i2c_gpio_set\<close> makes.
\<close>

definition emitted :: "directory \<Rightarrow> bus \<Rightarrow> 8 word \<Rightarrow> 8 word \<Rightarrow> event list" where
  "emitted D s c d = drop (length (snd s)) (snd (i2c_gpio_set D s c d))"

datatype obs = Call event | Level bool

definition tx_rising :: "i2c_gpio_t \<Rightarrow> 8 word \<Rightarrow> bool" where
  "tx_rising dev c =
     ((state dev = I2C_TRANSMIT \<or> state dev = I2C_TRANSMIT_START) \<and> scl dev = 0 \<and> c \<noteq> 0)"

fun observe :: "directory \<Rightarrow> bus \<Rightarrow> edge list \<Rightarrow> obs list" where
  "observe D s [] = []"
| "observe D s (e # es) =
     map Call (emitted D s (fst e) (snd e))
     @ (if tx_rising (fst s) (fst e)
        then [Level (i2c_gpio_get_sda (fst (i2c_gpio_set D s (fst e) (snd e))) \<noteq> 0)] else [])
     @ observe D (i2c_gpio_set D s (fst e) (snd e)) es"

section \<open>Auxiliary notions for the proofs\<close>

text \<open>The shift of \<open>case I2C_RECEIVE\<close>: the byte after one more bit with level \<open>d\<close>.\<close>

definition shift_in :: "8 word \<Rightarrow> 8 word \<Rightarrow> 8 word" where
  "shift_in w d = (if d \<noteq> 0 then push_bit 1 w OR 1 else push_bit 1 w AND 0xfe)"

text \<open>
  The device between two bytes of a write to the address \<open>a\<close>: the address byte has
  been accepted, the bit counter is 0 and the next rising clock is a data bit.
\<close>

definition wr_open :: "8 word \<Rightarrow> i2c_gpio_t \<Rightarrow> bool" where
  "wr_open a dev =
     ((state dev = I2C_RECEIVE \<or> state dev = I2C_RECEIVE_WAIT) \<and> pos dev = 0
      \<and> (slave_state dev = SLAVE_RECEIVEADDR \<or> slave_state dev = SLAVE_RECEIVEDATA)
      \<and> slave_addr dev = a \<and> slave_rw dev = 0 \<and> transmit dev = TRANSMITTER_MASTER)"

text \<open>
  The same between two bytes after an address byte that named no device, when the driver
  field is \<open>TRANSMITTER_MASTER\<close>.
\<close>

definition nodev_open :: "8 word \<Rightarrow> i2c_gpio_t \<Rightarrow> bool" where
  "nodev_open a dev =
     ((state dev = I2C_RECEIVE \<or> state dev = I2C_RECEIVE_WAIT) \<and> pos dev = 0
      \<and> slave_state dev = SLAVE_INVALID \<and> slave_addr dev = a
      \<and> transmit dev = TRANSMITTER_MASTER)"

text \<open>
  The device about to send the byte \<open>v\<close> to the master in a read of the address \<open>a\<close>.
\<close>

definition tx_ready :: "8 word \<Rightarrow> 8 word \<Rightarrow> i2c_gpio_t \<Rightarrow> bool" where
  "tx_ready a v dev =
     ((state dev = I2C_TRANSMIT \<or> state dev = I2C_TRANSMIT_START) \<and> pos dev = 0
      \<and> byte dev = v \<and> slave_addr dev = a)"

text \<open>
  The condition under which \<open>i2c_gpio_set\<close> recognises a stop bit: the clock is high
  before and in the call, the data line was low and is high in the call, and the wire
  state is one of the four whose case tests for it.
\<close>

definition stop_detected :: "i2c_gpio_t \<Rightarrow> 8 word \<Rightarrow> 8 word \<Rightarrow> bool" where
  "stop_detected dev c d =
     (state dev \<in> {I2C_RECEIVE, I2C_RECEIVE_WAIT, I2C_TRANSMIT_START, I2C_TRANSMIT_WAIT}
      \<and> scl dev \<noteq> 0 \<and> c \<noteq> 0 \<and> last_sda dev = 0 \<and> d \<noteq> 0)"

section \<open>Open transactions\<close>

text \<open>
  Whether a transaction is open after a list of directory calls: the last \<open>Start\<close> or
  \<open>Stop\<close> in it is a \<open>Start\<close>.
\<close>

fun txn_open :: "bool \<Rightarrow> event list \<Rightarrow> bool" where
  "txn_open b [] = b"
| "txn_open b (Start a # es) = txn_open True es"
| "txn_open b (Stop a # es) = txn_open False es"
| "txn_open b (e # es) = txn_open b es"

definition open_txn :: "event list \<Rightarrow> bool" where
  "open_txn tr = txn_open False tr"

text \<open>
  The invariant relating the target address to the calls made, and the property that a
  reachable idle device has no target address and the idle byte state.
\<close>

definition addr_inv :: "bus \<Rightarrow> bool" where
  "addr_inv s = (slave_addr (fst s) = 0xff \<longrightarrow> \<not> open_txn (snd s))"

definition idle_ok :: "i2c_gpio_t \<Rightarrow> bool" where
  "idle_ok dev = (state dev = I2C_IDLE \<longrightarrow> slave_addr dev = 0xff \<and> slave_state dev = SLAVE_IDLE)"

text \<open>
  How one call of \<open>i2c_gpio_set\<close> opens and closes: \<open>dev\<close> before the call, \<open>dev'\<close>
  after it, \<open>evs\<close> the directory calls it made.
\<close>

definition lockstep :: "directory \<Rightarrow> i2c_gpio_t \<Rightarrow> i2c_gpio_t \<Rightarrow> event list \<Rightarrow> bool" where
  "lockstep D dev dev' evs =
     ((\<forall>a. Start a \<in> set evs \<longrightarrow>
            slave_addr dev = 0xff \<and> slave_addr dev' = a \<and> has_device D a)
      \<and> (\<forall>a. Stop a \<in> set evs \<longrightarrow>
            slave_addr dev = a \<and> slave_addr dev' = 0xff \<and> state dev' = I2C_IDLE))"

text \<open>
  The device after a start, the address byte \<open>0xA2\<close> with its acknowledge pulse and one
  more rising clock with the data line high, from \<open>i2c_gpio_init\<close> with a device at
  \<open>0x51\<close>: a write transaction to \<open>0x51\<close> is open, the clock and the data line are high.
\<close>

definition mid_write :: i2c_gpio_t where
  "mid_write =
     \<lparr> scl = 1, sda = 1, state = I2C_RECEIVE, slave_state = SLAVE_RECEIVEADDR,
       slave_addr = 0x51, slave_rw = 0, last_sda = 1, pos = 1,
       transmit = TRANSMITTER_MASTER, byte = 0x45 \<rparr>"


section \<open>A directory for the concrete runs\<close>

text \<open>
  Devices at the addresses \<open>0x51\<close> and \<open>0x52\<close>; a read returns the address plus the
  number of calls made so far, so that successive reads differ.
\<close>

definition test_dir :: directory where
  "test_dir = \<lparr> has_device = (\<lambda>a. a = 0x51 \<or> a = 0x52),
                read_byte = (\<lambda>tr a. a + of_nat (length tr)) \<rparr>"

section \<open>Basic facts about one call\<close>

lemmas set_defs = i2c_gpio_set_def set_tail_def case_receive_def case_transmit_def


lemma scl_set_tail: "scl (fst (set_tail s c d)) = c"
  by (cases s) (simp add: set_tail_def)

lemma scl_case_transmit:
  "scl (fst (case case_transmit s c of Inl r \<Rightarrow> r | Inr b \<Rightarrow> set_tail b c d)) = c"
  by (cases s) (simp add: case_transmit_def scl_set_tail)

lemma scl_i2c_gpio_set: "scl (fst (i2c_gpio_set D s c d)) = c"
  by (cases s; cases "state (fst s)")
     (simp_all add: i2c_gpio_set_def scl_set_tail scl_case_transmit Let_def split: prod.splits)

lemma idle_data_low:
  assumes "state dev = I2C_IDLE" and "last_sda dev = 0"
  shows "state (fst (i2c_gpio_set D (dev, tr) c 0)) = I2C_IDLE
         \<and> last_sda (fst (i2c_gpio_set D (dev, tr) c 0)) = 0
         \<and> snd (i2c_gpio_set D (dev, tr) c 0) = tr"
  using assms by (simp add: set_defs)

lemma feed_idle_data_low:
  assumes "state dev = I2C_IDLE" and "last_sda dev = 0" and "\<forall>e \<in> set es. snd e = 0"
  shows "state (fst (feed D (dev, tr) es)) = I2C_IDLE \<and> snd (feed D (dev, tr) es) = tr"
  using assms
proof (induction es arbitrary: dev)
  case Nil
  then show ?case by simp
next
  case (Cons e es)
  define dev' where "dev' = fst (i2c_gpio_set D (dev, tr) (fst e) 0)"
  have st: "state dev' = I2C_IDLE" "last_sda dev' = 0"
    and s: "i2c_gpio_set D (dev, tr) (fst e) 0 = (dev', tr)"
    using Cons.prems(1,2) idle_data_low [of dev D tr "fst e"]
    by (simp_all add: dev'_def prod_eq_iff)
  have e: "snd e = 0" and es: "\<forall>e \<in> set es. snd e = 0"
    using Cons.prems(3) by simp_all
  show ?case
    using Cons.IH [OF st es] by (simp add: s e)
qed

section \<open>The output queries\<close>

text \<open>
  Claim C7. In every state (so in every reachable one) \<open>i2c_gpio_get_sda\<close> returns the
  stored \<open>sda\<close> when the wire state is TRANSMIT or ACKNOWLEDGE, 0 (pulled low) when it is
  RECEIVE_WAIT, and 1 (released) in every other wire state. \<open>i2c_gpio_get_scl\<close> returns
  the stored \<open>scl\<close>, and after any call of \<open>i2c_gpio_set\<close> that is the clock level the
  call was given: the engine never puts a level of its own on the clock.
\<close>

theorem C7_output_levels:
  "(state dev = I2C_TRANSMIT \<or> state dev = I2C_ACKNOWLEDGE \<longrightarrow> i2c_gpio_get_sda dev = sda dev)
   \<and> (state dev = I2C_RECEIVE_WAIT \<longrightarrow> i2c_gpio_get_sda dev = 0)
   \<and> (state dev \<notin> {I2C_TRANSMIT, I2C_ACKNOWLEDGE, I2C_RECEIVE_WAIT} \<longrightarrow> i2c_gpio_get_sda dev = 1)
   \<and> i2c_gpio_get_scl dev = scl dev
   \<and> i2c_gpio_get_scl (fst (i2c_gpio_set D (dev, tr) c d)) = c"
  by (simp add: i2c_gpio_get_sda_def i2c_gpio_get_scl_def scl_i2c_gpio_set)

theorem C7_output_levels_witness:
  "state (i2c_gpio_init\<lparr>state := I2C_TRANSMIT, sda := 0x80\<rparr>) = I2C_TRANSMIT
   \<and> i2c_gpio_get_sda (i2c_gpio_init\<lparr>state := I2C_TRANSMIT, sda := 0x80\<rparr>) = 0x80
   \<and> state (i2c_gpio_init\<lparr>state := I2C_ACKNOWLEDGE, sda := 0\<rparr>) = I2C_ACKNOWLEDGE
   \<and> i2c_gpio_get_sda (i2c_gpio_init\<lparr>state := I2C_ACKNOWLEDGE, sda := 0\<rparr>) = 0
   \<and> state (i2c_gpio_init\<lparr>state := I2C_RECEIVE_WAIT\<rparr>) = I2C_RECEIVE_WAIT
   \<and> i2c_gpio_get_sda (i2c_gpio_init\<lparr>state := I2C_RECEIVE_WAIT\<rparr>) = 0
   \<and> state i2c_gpio_init \<notin> {I2C_TRANSMIT, I2C_ACKNOWLEDGE, I2C_RECEIVE_WAIT}
   \<and> i2c_gpio_get_sda i2c_gpio_init = 1
   \<and> i2c_gpio_get_scl (fst (i2c_gpio_set test_dir (i2c_gpio_init, []) 0 1)) = 0"
  using C7_output_levels [of "i2c_gpio_init\<lparr>state := I2C_TRANSMIT, sda := 0x80\<rparr>"]
        C7_output_levels [of "i2c_gpio_init\<lparr>state := I2C_ACKNOWLEDGE, sda := 0\<rparr>"]
        C7_output_levels [of "i2c_gpio_init\<lparr>state := I2C_RECEIVE_WAIT\<rparr>"]
        C7_output_levels [of i2c_gpio_init test_dir "[]" 0 1]
  by (simp add: i2c_gpio_init_def)

section \<open>The first call after \<open>i2c_gpio_init\<close>\<close>

text \<open>
  Claim C10. \<open>i2c_gpio_init\<close> leaves \<open>last_sda\<close> at 0 while \<open>scl\<close> and \<open>sda\<close> are 1.
  So a first call with the clock high and the data low is not taken as a start: the wire
  state stays IDLE. More generally no start is detected as long as every call so far gave
  the data level 0; once a call has given a high data level, the next call with clock
  high and data low is a start.
\<close>

theorem C10_first_start_missed:
  "last_sda i2c_gpio_init = 0 \<and> scl i2c_gpio_init = 1 \<and> sda i2c_gpio_init = 1
   \<and> state (fst (i2c_gpio_set D (i2c_gpio_init, []) 1 0)) = I2C_IDLE
   \<and> ((\<forall>e \<in> set es. snd e = 0) \<longrightarrow>
        state (fst (feed D (i2c_gpio_init, []) es)) = I2C_IDLE
        \<and> snd (feed D (i2c_gpio_init, []) es) = [])
   \<and> state (fst (feed D (i2c_gpio_init, []) [(1, 1), (1, 0)])) = I2C_RECEIVE"
proof -
  have a: "state i2c_gpio_init = I2C_IDLE" "last_sda i2c_gpio_init = 0"
    by (simp_all add: i2c_gpio_init_def)
  have l: "scl i2c_gpio_init = 1 \<and> sda i2c_gpio_init = 1"
    by (simp add: i2c_gpio_init_def)
  have b: "state (fst (i2c_gpio_set D (i2c_gpio_init, []) 1 0)) = I2C_IDLE"
    using idle_data_low [OF a, of D "[]" 1] by blast
  have c: "state (fst (feed D (i2c_gpio_init, []) [(1, 1), (1, 0)])) = I2C_RECEIVE"
    by (simp add: set_defs i2c_gpio_init_def)
  have d: "(\<forall>e \<in> set es. snd e = 0) \<longrightarrow>
        state (fst (feed D (i2c_gpio_init, []) es)) = I2C_IDLE
        \<and> snd (feed D (i2c_gpio_init, []) es) = []"
    using feed_idle_data_low [OF a, of es D "[]"] by blast
  show ?thesis
    using a(2) l b c d by blast
qed

theorem C10_first_start_missed_witness:
  "state (fst (feed test_dir (i2c_gpio_init, []) [(1, 0), (0, 0), (1, 0)])) = I2C_IDLE
   \<and> snd (feed test_dir (i2c_gpio_init, []) [(1, 0), (0, 0), (1, 0)]) = []"
proof -
  have h: "\<forall>e \<in> set ([(1, 0), (0, 0), (1, 0)] :: edge list). snd e = 0"
    by simp
  show ?thesis
    using h C10_first_start_missed [of test_dir "[(1, 0), (0, 0), (1, 0)]"] by blast
qed

section \<open>The shift register and the address byte\<close>

text \<open>
  Shifting the eight bits of a byte into \<open>dev->byte\<close>, most significant first, leaves
  exactly that byte, whatever the register held before.
\<close>

lemma bit_fe: "bit (0xfe :: 8 word) n = (0 < n \<and> n < 8)"
proof -
  have "(0xfe :: 8 word) = NOT 1" by simp
  then show ?thesis by (simp only: bit_simps) (auto simp: bit_simps)
qed

lemma bit_push1: "bit (push_bit 1 (w :: 8 word)) n = (0 < n \<and> n < 8 \<and> bit w (n - 1))"
  by (simp only: bit_push_bit_iff possible_bit_word) auto

lemma bit_shift_in:
  "bit (shift_in w (level b)) n = (if n = 0 then b else n < 8 \<and> bit w (n - 1))"
proof (cases b)
  case True
  then have "shift_in w (level b) = push_bit 1 w OR 1"
    by (simp add: shift_in_def level_def)
  then show ?thesis
    using True by (simp only: bit_or_iff bit_push1 bit_1_iff) auto
next
  case False
  then have "shift_in w (level b) = push_bit 1 w AND 0xfe"
    by (simp add: shift_in_def level_def)
  then show ?thesis
    using False by (simp only: bit_and_iff bit_push1 bit_fe) auto
qed

lemma bit_foldl_shift_in:
  "n < 8 \<Longrightarrow> bit (foldl shift_in w (map level bs)) n =
     (if n < length bs then rev bs ! n else bit w (n - length bs))"
proof (induction bs arbitrary: w)
  case Nil
  then show ?case by simp
next
  case (Cons b bs)
  show ?case
    using Cons.prems Cons.IH [OF Cons.prems, of "shift_in w (level b)"]
    by (auto simp: bit_shift_in nth_append Suc_diff_le)
qed

lemma bits8_upt: "bits8 v = map (bit v) (rev [0..<8])"
  by (simp add: bits8_def upt_rec eval_nat_numeral)

lemma shift_in_bits8: "foldl shift_in w (map level (bits8 v)) = v"
proof (rule bit_word_eqI)
  fix n assume "n < LENGTH(8)"
  then have n: "n < 8" by simp
  have "rev (bits8 v) ! n = bit v n"
    using n by (simp add: bits8_upt rev_map del: upt_Suc)
  moreover have "length (bits8 v) = 8"
    by (simp add: bits8_def)
  ultimately show "bit (foldl shift_in w (map level (bits8 v))) n = bit v n"
    using n by (simp add: bit_foldl_shift_in [OF n])
qed

section \<open>Clock pulses, bytes and frames\<close>

text \<open>
  The effect of the calls of one clock pulse on a receiving device, then of the eight
  pulses of a byte, which end in the call of \<open>i2c_gpio_write\<close>, and of the acknowledge
  pulse.
\<close>

lemma feed_append: "feed D s (xs @ ys) = feed D (feed D s xs) ys"
  by (induction xs arbitrary: s) simp_all

lemma set_low:
  assumes "state dev \<notin> {I2C_TRANSMIT, I2C_TRANSMIT_START} \<or> scl dev = 0 \<or> pos dev \<noteq> 8"
  shows "i2c_gpio_set D (dev, tr) 0 x = (dev\<lparr>last_sda := x, scl := 0\<rparr>, tr)"
  using assms by (cases "state dev"; simp add: set_defs cong: conj_cong; blast)

lemma feed_lows:
  assumes "lows \<noteq> []"
    and "state dev \<notin> {I2C_TRANSMIT, I2C_TRANSMIT_START} \<or> scl dev = 0 \<or> pos dev \<noteq> 8"
  shows "feed D (dev, tr) (map (Pair 0) lows) = (dev\<lparr>last_sda := last lows, scl := 0\<rparr>, tr)"
  using assms
proof (induction lows arbitrary: dev rule: list_nonempty_induct)
  case (single x)
  then show ?case by (simp add: set_low)
next
  case (cons x xs)
  have "feed D (dev\<lparr>last_sda := x, scl := 0\<rparr>, tr) (map (Pair 0) xs)
        = (dev\<lparr>last_sda := x, scl := 0\<rparr>\<lparr>last_sda := last xs, scl := 0\<rparr>, tr)"
    by (rule cons.IH) simp
  then show ?case using cons.hyps cons.prems by (simp add: set_low)
qed

lemma case_receive_rise:
  assumes "scl dev = 0" and "c \<noteq> 0"
  shows "case_receive D (dev, tr) c d
         = (if pos dev + 1 = 8
            then (case i2c_gpio_write D (dev\<lparr>byte := shift_in (byte dev) d, pos := pos dev + 1\<rparr>, tr) of
                    (dev2, tr2) \<Rightarrow> (dev2\<lparr>state := I2C_ACKNOWLEDGE\<rparr>, tr2))
            else (dev\<lparr>byte := shift_in (byte dev) d, pos := pos dev + 1\<rparr>, tr))"
  using assms by (simp add: case_receive_def shift_in_def Let_def)

lemma set_rise_receive:
  assumes "state dev = I2C_RECEIVE \<or> state dev = I2C_RECEIVE_WAIT"
    and "scl dev = 0" and "pos dev + 1 \<noteq> 8" and "c \<noteq> 0"
  shows "i2c_gpio_set D (dev, tr) c d
         = (dev\<lparr>state := I2C_RECEIVE, byte := shift_in (byte dev) d, pos := pos dev + 1,
                sda := d, last_sda := d, scl := c\<rparr>, tr)"
  using assms(1)
proof
  assume "state dev = I2C_RECEIVE"
  then show ?thesis
    using assms(2-) by (simp add: i2c_gpio_set_def case_receive_rise set_tail_def)
next
  assume "state dev = I2C_RECEIVE_WAIT"
  then show ?thesis
    using assms(2-) by (simp add: i2c_gpio_set_def case_receive_rise set_tail_def)
qed

lemma set_rise_receive_last:
  assumes "state dev = I2C_RECEIVE \<or> state dev = I2C_RECEIVE_WAIT"
    and "scl dev = 0" and "pos dev + 1 = 8" and "c \<noteq> 0"
  shows "i2c_gpio_set D (dev, tr) c d
         = (case i2c_gpio_write D (dev\<lparr>byte := shift_in (byte dev) d\<rparr>, tr) of
              (dev2, tr2) \<Rightarrow>
                (dev2\<lparr>state := I2C_ACKNOWLEDGE, pos := 8, sda := d, last_sda := d, scl := c\<rparr>, tr2))"
  using assms(1)
proof
  assume "state dev = I2C_RECEIVE"
  then show ?thesis
    using assms(2-)
    by (cases "slave_state dev")
       (simp_all add: i2c_gpio_set_def case_receive_rise set_tail_def i2c_gpio_write_def Let_def)
next
  assume "state dev = I2C_RECEIVE_WAIT"
  then show ?thesis
    using assms(2-)
    by (cases "slave_state dev")
       (simp_all add: i2c_gpio_set_def case_receive_rise set_tail_def i2c_gpio_write_def Let_def)
qed

lemma pulse_receive:
  assumes "state dev = I2C_RECEIVE \<or> state dev = I2C_RECEIVE_WAIT"
    and "lows \<noteq> []" and "pos dev + 1 \<noteq> 8"
  shows "feed D (dev, tr) (clk_pulse lows d)
         = (dev\<lparr>state := I2C_RECEIVE, byte := shift_in (byte dev) d, pos := pos dev + 1,
                sda := d, last_sda := d, scl := 1\<rparr>, tr)"
proof -
  have "feed D (dev, tr) (map (Pair 0) lows) = (dev\<lparr>last_sda := last lows, scl := 0\<rparr>, tr)"
    using assms by (intro feed_lows) auto
  then show ?thesis
    using assms by (simp add: clk_pulse_def feed_append set_rise_receive)
qed

lemma pulse_receive_last:
  assumes "state dev = I2C_RECEIVE \<or> state dev = I2C_RECEIVE_WAIT"
    and "lows \<noteq> []" and "pos dev + 1 = 8"
  shows "feed D (dev, tr) (clk_pulse lows d)
         = (case i2c_gpio_write D (dev\<lparr>byte := shift_in (byte dev) d\<rparr>, tr) of
              (dev2, tr2) \<Rightarrow>
                (dev2\<lparr>state := I2C_ACKNOWLEDGE, pos := 8, sda := d, last_sda := d, scl := 1\<rparr>, tr2))"
proof -
  have "feed D (dev, tr) (map (Pair 0) lows) = (dev\<lparr>last_sda := last lows, scl := 0\<rparr>, tr)"
    using assms by (intro feed_lows) auto
  then show ?thesis
    using assms
    by (cases "slave_state dev")
       (simp_all add: clk_pulse_def feed_append set_rise_receive_last i2c_gpio_write_def Let_def)
qed

lemma pulse_ack:
  assumes "state dev = I2C_ACKNOWLEDGE" and "lows \<noteq> []"
  shows "feed D (dev, tr) (clk_pulse lows a)
         = (dev\<lparr>state := (if transmit dev = TRANSMITTER_MASTER then I2C_RECEIVE_WAIT else I2C_TRANSMIT),
                pos := 0, sda := 0, last_sda := 0, scl := 1\<rparr>, tr)"
proof -
  have "feed D (dev, tr) (map (Pair 0) lows) = (dev\<lparr>last_sda := last lows, scl := 0\<rparr>, tr)"
    using assms by (intro feed_lows) auto
  then show ?thesis
    using assms by (simp add: clk_pulse_def feed_append set_defs)
qed

lemma shift_in_nested:
  "shift_in (shift_in (shift_in (shift_in (shift_in (shift_in (shift_in (shift_in w
     (level (bit v 7))) (level (bit v 6))) (level (bit v 5))) (level (bit v 4)))
     (level (bit v 3))) (level (bit v 2))) (level (bit v 1))) (level (bit v 0)) = v"
  using shift_in_bits8 [of w v] by (simp add: bits8_def)

lemma recv_pulses8:
  assumes "state dev = I2C_RECEIVE \<or> state dev = I2C_RECEIVE_WAIT" and "pos dev = 0"
    and "l1 \<noteq> []" "l2 \<noteq> []" "l3 \<noteq> []" "l4 \<noteq> []" "l5 \<noteq> []" "l6 \<noteq> []" "l7 \<noteq> []" "l8 \<noteq> []"
  shows "feed D (dev, tr)
           (pulses [(l1, d1), (l2, d2), (l3, d3), (l4, d4), (l5, d5), (l6, d6), (l7, d7), (l8, d8)])
         = (case i2c_gpio_write D
                   (dev\<lparr>byte := shift_in (shift_in (shift_in (shift_in (shift_in (shift_in
                      (shift_in (shift_in (byte dev) d1) d2) d3) d4) d5) d6) d7) d8\<rparr>, tr) of
              (dev2, tr2) \<Rightarrow>
                (dev2\<lparr>state := I2C_ACKNOWLEDGE, pos := 8, sda := d8, last_sda := d8, scl := 1\<rparr>, tr2))"
  using assms
  by (cases "slave_state dev")
     (simp_all add: feed_append pulse_receive pulse_receive_last i2c_gpio_write_def Let_def)

lemma length8:
  assumes "length ls = 8"
  obtains l1 l2 l3 l4 l5 l6 l7 l8 where "ls = [l1, l2, l3, l4, l5, l6, l7, l8]"
  using assms by (auto simp: eval_nat_numeral length_Suc_conv)

lemma recv_byte:
  assumes "state dev = I2C_RECEIVE \<or> state dev = I2C_RECEIVE_WAIT" and "pos dev = 0"
    and "length ls = 8" and "[] \<notin> set ls"
  shows "feed D (dev, tr) (send_byte ls v)
         = (case i2c_gpio_write D (dev\<lparr>byte := v\<rparr>, tr) of
              (dev2, tr2) \<Rightarrow>
                (dev2\<lparr>state := I2C_ACKNOWLEDGE, pos := 8, sda := level (bit v 0),
                      last_sda := level (bit v 0), scl := 1\<rparr>, tr2))"
proof -
  obtain l1 l2 l3 l4 l5 l6 l7 l8 where ls: "ls = [l1, l2, l3, l4, l5, l6, l7, l8]"
    using assms(3) by (rule length8)
  have ne: "l1 \<noteq> []" "l2 \<noteq> []" "l3 \<noteq> []" "l4 \<noteq> []" "l5 \<noteq> []" "l6 \<noteq> []" "l7 \<noteq> []" "l8 \<noteq> []"
    using assms(4) by (auto simp: ls)
  show ?thesis
    unfolding send_byte_def ls bits8_def list.map zip_Cons_Cons zip_Nil
    by (simp only: recv_pulses8 [OF assms(1,2) ne] shift_in_nested)
qed

lemma recv_frame:
  assumes "state dev = I2C_RECEIVE \<or> state dev = I2C_RECEIVE_WAIT" and "pos dev = 0"
    and "wr_frame_ok f"
  shows "feed D (dev, tr) (wr_frame_edges f)
         = (case i2c_gpio_write D (dev\<lparr>byte := payload f\<rparr>, tr) of
              (dev2, tr2) \<Rightarrow>
                (dev2\<lparr>state := (if transmit dev2 = TRANSMITTER_MASTER
                                 then I2C_RECEIVE_WAIT else I2C_TRANSMIT),
                      pos := 0, sda := 0, last_sda := 0, scl := 1\<rparr>, tr2))"
  using assms
  by (simp add: wr_frame_edges_def wr_frame_ok_def feed_append recv_byte pulse_ack
           split: prod.splits)

section \<open>Address bytes, start and stop\<close>

text \<open>
  What \<open>i2c_gpio_write\<close> does with an address byte, with and without a device at the
  address, and the effect of the start, stop and repeated start conditions.
\<close>

lemma addr_lt_bit: "(a :: 8 word) < 0x80 \<Longrightarrow> bit a n = (n < 7 \<and> bit a n)"
proof -
  assume "a < 0x80"
  then have "a < 2 ^ 7" by simp
  then have "a AND mask 7 = a"
    by (rule less_mask_eq)
  then have "bit a n = bit (a AND mask 7) n" by simp
  then show ?thesis by (simp only: bit_and_iff bit_mask_iff) auto
qed

lemma bit_of_bool_word: "bit (if rd then 1 else 0 :: 8 word) n = (rd \<and> n = 0)"
  by (simp add: bit_1_iff)

lemma drop_addr_byte:
  assumes "a < 0x80"
  shows "drop_bit 1 (addr_byte a rd) = a"
proof (rule bit_word_eqI)
  fix n assume "n < LENGTH(8)"
  then have n: "n < 8" by simp
  have "bit (drop_bit 1 (addr_byte a rd)) n = (n < 7 \<and> bit a n)"
    unfolding addr_byte_def
    by (simp only: bit_drop_bit_eq o_apply bit_or_iff bit_push1 bit_of_bool_word) auto
  then show "bit (drop_bit 1 (addr_byte a rd)) n = bit a n"
    using addr_lt_bit [OF assms, of n] by simp
qed

lemma and1_addr_byte: "addr_byte a rd AND 1 = (if rd then 1 else 0)"
proof (rule bit_word_eqI)
  fix n assume "n < LENGTH(8)"
  show "bit (addr_byte a rd AND 1) n = bit (if rd then 1 else 0 :: 8 word) n"
    unfolding addr_byte_def
    by (simp only: bit_and_iff bit_or_iff bit_push1 bit_of_bool_word bit_1_iff) auto
qed

lemmas addr_byte_simps = drop_addr_byte drop_addr_byte [simplified] and1_addr_byte

lemma addr_not_ff: "(a :: 8 word) < 0x80 \<Longrightarrow> a \<noteq> 0xff"
  by auto

lemma write_addr_present:
  assumes "slave_state dev = SLAVE_IDLE" and "a < 0x80" and "has_device D a"
  shows "i2c_gpio_write D (dev\<lparr>byte := addr_byte a rd\<rparr>, tr)
         = (let tr2 = tr @ HasDevice a # (if slave_addr dev = 0xff then [Start a] else [])
            in if rd
               then (dev\<lparr>byte := read_byte D tr2 a, slave_addr := a, slave_rw := 1,
                         slave_state := SLAVE_SENDDATA, transmit := TRANSMITTER_SLAVE\<rparr>,
                     tr2 @ [Read a (read_byte D tr2 a)])
               else (dev\<lparr>byte := addr_byte a rd, slave_addr := a, slave_rw := 0,
                         slave_state := SLAVE_RECEIVEADDR, transmit := TRANSMITTER_MASTER\<rparr>, tr2))"
  using assms
  by (simp add: i2c_gpio_write_def Let_def addr_byte_simps)

lemma write_addr_absent:
  assumes "slave_state dev = SLAVE_IDLE" and "a < 0x80" and "\<not> has_device D a"
  shows "i2c_gpio_write D (dev\<lparr>byte := addr_byte a rd\<rparr>, tr)
         = (dev\<lparr>byte := addr_byte a rd, slave_addr := a, slave_rw := (if rd then 1 else 0),
                slave_state := SLAVE_INVALID\<rparr>, tr @ [HasDevice a])"
  using assms
  by (simp add: i2c_gpio_write_def Let_def addr_byte_simps)

lemma feed_start:
  assumes "state dev = I2C_IDLE"
  shows "feed D (dev, tr) start_cond
         = (dev\<lparr>state := I2C_RECEIVE, pos := 0, sda := (if scl dev = 0 then 1 else sda dev),
                last_sda := 0, scl := 1\<rparr>, tr)"
  using assms by (simp add: start_cond_def set_defs)

lemma stop_cond_pulse: "stop_cond lows = clk_pulse (lows @ [0]) 0 @ [(1, 1)]"
  by (simp add: stop_cond_def clk_pulse_def)

lemma rep_start_pulse: "rep_start lows = clk_pulse (lows @ [1]) 1 @ [(1, 0)]"
  by (simp add: rep_start_def clk_pulse_def)

lemma feed_stop:
  assumes "state dev = I2C_RECEIVE \<or> state dev = I2C_RECEIVE_WAIT" and "pos dev + 1 \<noteq> 8"
  shows "feed D (dev, tr) (stop_cond lows)
         = (dev\<lparr>state := I2C_IDLE, byte := shift_in (byte dev) 0, pos := pos dev + 1,
                sda := 0, last_sda := 1, scl := 1, slave_addr := 0xff,
                slave_state := SLAVE_IDLE, transmit := TRANSMITTER_MASTER\<rparr>,
            if slave_addr dev \<noteq> 0xff then tr @ [Stop (slave_addr dev)] else tr)"
  using assms
  by (simp add: stop_cond_pulse feed_append pulse_receive set_defs i2c_gpio_stop_def)

lemma feed_rep_start:
  assumes "state dev = I2C_RECEIVE \<or> state dev = I2C_RECEIVE_WAIT" and "pos dev + 1 \<noteq> 8"
  shows "feed D (dev, tr) (rep_start lows)
         = (dev\<lparr>state := I2C_RECEIVE, byte := shift_in (byte dev) 1, pos := 0,
                slave_state := SLAVE_IDLE, sda := 1, last_sda := 0, scl := 1\<rparr>, tr)"
  using assms
  by (simp add: rep_start_pulse feed_append pulse_receive set_defs)

lemma feed_stop_idle:
  assumes "state dev = I2C_IDLE"
  shows "feed D (dev, tr) (stop_cond lows)
         = (dev\<lparr>sda := 0, last_sda := 1, scl := 1\<rparr>, tr)"
proof -
  have "feed D (dev, tr) (map (Pair 0) (lows @ [0])) = (dev\<lparr>last_sda := last (lows @ [0]), scl := 0\<rparr>, tr)"
    using assms by (intro feed_lows) auto
  then show ?thesis
    using assms by (simp add: stop_cond_pulse clk_pulse_def feed_append set_defs)
qed

section \<open>Write transactions\<close>

text \<open>
  Data frames of an open write are passed to \<open>i2c_write\<close> one by one; induction on the
  list of frames, with the device and the trace generalised.
\<close>

lemma recv_data_frame:
  assumes "wr_open a dev" and "wr_frame_ok f"
  shows "\<exists>dev'. feed D (dev, tr) (wr_frame_edges f) = (dev', tr @ [Write a (payload f)])
               \<and> wr_open a dev'"
  using assms(1) unfolding wr_open_def
  by (elim conjE disjE)
     (simp_all add: recv_frame [OF _ _ assms(2)] i2c_gpio_write_def)

lemma recv_data_frames:
  assumes "wr_open a dev" and "\<forall>f \<in> set dfs. wr_frame_ok f"
  shows "\<exists>dev'. feed D (dev, tr) (concat (map wr_frame_edges dfs))
                  = (dev', tr @ map (\<lambda>f. Write a (payload f)) dfs)
               \<and> wr_open a dev'"
  using assms
proof (induction dfs arbitrary: dev tr)
  case Nil
  then show ?case by simp
next
  case (Cons f dfs)
  obtain dev1 where 1: "feed D (dev, tr) (wr_frame_edges f) = (dev1, tr @ [Write a (payload f)])"
    and o1: "wr_open a dev1"
    using recv_data_frame [of a dev f D tr] Cons.prems by auto
  obtain dev2 where 2: "feed D (dev1, tr @ [Write a (payload f)]) (concat (map wr_frame_edges dfs))
                  = (dev2, (tr @ [Write a (payload f)]) @ map (\<lambda>f. Write a (payload f)) dfs)"
    and o2: "wr_open a dev2"
    using Cons.IH [OF o1, of "tr @ [Write a (payload f)]"] Cons.prems(2) by auto
  show ?case
    using 1 2 o2 by (simp add: feed_append)
qed

lemma open_write:
  assumes "state dev = I2C_IDLE" and "slave_state dev = SLAVE_IDLE"
    and "a < 0x80" and "has_device D a"
    and "payload af = addr_byte a False" and "wr_frame_ok af"
  shows "\<exists>dev'. feed D (dev, tr) (start_cond @ wr_frame_edges af)
                  = (dev', tr @ HasDevice a # (if slave_addr dev = 0xff then [Start a] else []))
               \<and> wr_open a dev'"
  using assms
  by (simp add: feed_append feed_start recv_frame write_addr_present wr_open_def)

lemma write_txn_trace:
  assumes "state dev = I2C_IDLE" and "slave_state dev = SLAVE_IDLE" and "slave_addr dev = 0xff"
    and "a < 0x80" and "has_device D a"
    and "payload af = addr_byte a False" and "wr_frame_ok af"
    and "\<forall>f \<in> set dfs. wr_frame_ok f"
  shows "snd (feed D (dev, tr) (write_txn af dfs sl))
           = tr @ [HasDevice a, Start a] @ map (\<lambda>f. Write a (payload f)) dfs @ [Stop a]
         \<and> state (fst (feed D (dev, tr) (write_txn af dfs sl))) = I2C_IDLE
         \<and> slave_state (fst (feed D (dev, tr) (write_txn af dfs sl))) = SLAVE_IDLE
         \<and> slave_addr (fst (feed D (dev, tr) (write_txn af dfs sl))) = 0xff"
proof -
  obtain dev1 where 1: "feed D (dev, tr) (start_cond @ wr_frame_edges af)
                         = (dev1, tr @ [HasDevice a, Start a])"
    and o1: "wr_open a dev1"
    using open_write [OF assms(1,2,4,5,6,7), of tr] assms(3) by auto
  obtain dev2 where 2: "feed D (dev1, tr @ [HasDevice a, Start a]) (concat (map wr_frame_edges dfs))
                  = (dev2, (tr @ [HasDevice a, Start a]) @ map (\<lambda>f. Write a (payload f)) dfs)"
    and o2: "wr_open a dev2"
    using recv_data_frames [OF o1 assms(8)] by blast
  have na: "a \<noteq> 0xff"
    using assms(4) by (rule addr_not_ff)
  have 3: "feed D (dev, tr) (write_txn af dfs sl)
           = feed D (dev2, (tr @ [HasDevice a, Start a]) @ map (\<lambda>f. Write a (payload f)) dfs)
               (stop_cond sl)"
    using 1 2 by (simp add: write_txn_def feed_append del: append_assoc flip: append_assoc)
  show ?thesis
    unfolding 3 using o2 na unfolding wr_open_def
    by (elim conjE disjE) (simp_all add: feed_stop)
qed

lemma feed_lows_any:
  assumes "state dev \<notin> {I2C_TRANSMIT, I2C_TRANSMIT_START} \<or> scl dev = 0 \<or> pos dev \<noteq> 8"
  shows "\<exists>x c. feed D (dev, tr) (map (Pair 0) lows) = (dev\<lparr>last_sda := x, scl := c\<rparr>, tr)"
proof (cases "lows = []")
  case True
  have "dev = dev\<lparr>last_sda := last_sda dev, scl := scl dev\<rparr>" by simp
  then show ?thesis using True by (metis feed.simps(1) list.simps(8))
next
  case False
  then show ?thesis using feed_lows [OF False assms] by blast
qed

lemma ack_window:
  assumes "state dev = I2C_RECEIVE \<or> state dev = I2C_RECEIVE_WAIT" and "pos dev = 0"
    and "wr_frame_ok f"
  shows "i2c_gpio_get_sda (fst (feed D (dev, tr) (wr_frame_edges f @ map (Pair 0) lows))) = 0"
proof -
  obtain dev2 tr2 where w: "i2c_gpio_write D (dev\<lparr>byte := payload f\<rparr>, tr) = (dev2, tr2)"
    by (cases "i2c_gpio_write D (dev\<lparr>byte := payload f\<rparr>, tr)")
  define dev3 where "dev3 = dev2\<lparr>state := (if transmit dev2 = TRANSMITTER_MASTER
                                 then I2C_RECEIVE_WAIT else I2C_TRANSMIT),
                      pos := 0, sda := 0, last_sda := 0, scl := 1\<rparr>"
  have 1: "feed D (dev, tr) (wr_frame_edges f) = (dev3, tr2)"
    by (simp add: recv_frame [OF assms] w dev3_def)
  have "state dev3 \<notin> {I2C_TRANSMIT, I2C_TRANSMIT_START} \<or> scl dev3 = 0 \<or> pos dev3 \<noteq> 8"
    by (simp add: dev3_def)
  then obtain x c where 2: "feed D (dev3, tr2) (map (Pair 0) lows) = (dev3\<lparr>last_sda := x, scl := c\<rparr>, tr2)"
    using feed_lows_any by blast
  show ?thesis
    by (simp add: feed_append 1 2 i2c_gpio_get_sda_def) (simp add: dev3_def)
qed

lemma ack_setup:
  assumes "state dev = I2C_RECEIVE \<or> state dev = I2C_RECEIVE_WAIT" and "pos dev = 0"
    and "length ls = 8" and "[] \<notin> set ls"
  shows "i2c_gpio_get_sda (fst (feed D (dev, tr) (send_byte ls v @ map (Pair 0) lows)))
         = level (bit v 0)"
proof -
  obtain dev2 tr2 where w: "i2c_gpio_write D (dev\<lparr>byte := v\<rparr>, tr) = (dev2, tr2)"
    by (cases "i2c_gpio_write D (dev\<lparr>byte := v\<rparr>, tr)")
  define dev3 where "dev3 = dev2\<lparr>state := I2C_ACKNOWLEDGE, pos := 8, sda := level (bit v 0),
                      last_sda := level (bit v 0), scl := 1\<rparr>"
  have 1: "feed D (dev, tr) (send_byte ls v) = (dev3, tr2)"
    by (simp add: recv_byte [OF assms] w dev3_def)
  have "state dev3 \<notin> {I2C_TRANSMIT, I2C_TRANSMIT_START} \<or> scl dev3 = 0 \<or> pos dev3 \<noteq> 8"
    by (simp add: dev3_def)
  then obtain x c where 2: "feed D (dev3, tr2) (map (Pair 0) lows) = (dev3\<lparr>last_sda := x, scl := c\<rparr>, tr2)"
    using feed_lows_any by blast
  show ?thesis
    by (simp add: feed_append 1 2 i2c_gpio_get_sda_def) (simp add: dev3_def)
qed

section \<open>Transactions to an address without a device\<close>

text \<open>
  With the driver field \<open>TRANSMITTER_MASTER\<close> the device keeps receiving after an address
  byte that names no device: the bytes that follow are dropped without a directory call
  and the stop calls \<open>i2c_stop\<close> for the address.
\<close>

lemma open_absent:
  assumes "state dev = I2C_IDLE" and "slave_state dev = SLAVE_IDLE"
    and "transmit dev = TRANSMITTER_MASTER"
    and "a < 0x80" and "\<not> has_device D a"
    and "payload af = addr_byte a rd" and "wr_frame_ok af"
  shows "\<exists>dev'. feed D (dev, tr) (start_cond @ wr_frame_edges af) = (dev', tr @ [HasDevice a])
               \<and> nodev_open a dev'"
  using assms
  by (simp add: feed_append feed_start recv_frame write_addr_absent nodev_open_def)

lemma absent_data_frame:
  assumes "nodev_open a dev" and "wr_frame_ok f"
  shows "\<exists>dev'. feed D (dev, tr) (wr_frame_edges f) = (dev', tr) \<and> nodev_open a dev'"
  using assms(1) unfolding nodev_open_def
  by (elim conjE disjE)
     (simp_all add: recv_frame [OF _ _ assms(2)] i2c_gpio_write_def)

lemma absent_data_frames:
  assumes "nodev_open a dev" and "\<forall>f \<in> set dfs. wr_frame_ok f"
  shows "\<exists>dev'. feed D (dev, tr) (concat (map wr_frame_edges dfs)) = (dev', tr)
               \<and> nodev_open a dev'"
  using assms
proof (induction dfs arbitrary: dev)
  case Nil
  then show ?case by simp
next
  case (Cons f dfs)
  obtain dev1 where 1: "feed D (dev, tr) (wr_frame_edges f) = (dev1, tr)"
    and o1: "nodev_open a dev1"
    using absent_data_frame [of a dev f D tr] Cons.prems by auto
  obtain dev2 where 2: "feed D (dev1, tr) (concat (map wr_frame_edges dfs)) = (dev2, tr)"
    and o2: "nodev_open a dev2"
    using Cons.IH [OF o1] Cons.prems(2) by auto
  show ?case
    using 1 2 o2 by (simp add: feed_append)
qed

lemma absent_txn:
  assumes "state dev = I2C_IDLE" and "slave_state dev = SLAVE_IDLE"
    and "transmit dev = TRANSMITTER_MASTER"
    and "a < 0x80" and "\<not> has_device D a"
    and "payload af = addr_byte a rd" and "wr_frame_ok af"
    and "\<forall>f \<in> set dfs. wr_frame_ok f"
  shows "\<exists>dev1 dev2.
           feed D (dev, tr) (start_cond @ wr_frame_edges af) = (dev1, tr @ [HasDevice a])
         \<and> nodev_open a dev1
         \<and> feed D (dev1, tr @ [HasDevice a]) (concat (map wr_frame_edges dfs))
             = (dev2, tr @ [HasDevice a])
         \<and> nodev_open a dev2
         \<and> snd (feed D (dev, tr) (write_txn af dfs sl)) = tr @ [HasDevice a, Stop a]
         \<and> state (fst (feed D (dev, tr) (write_txn af dfs sl))) = I2C_IDLE"
proof -
  obtain dev1 where 1: "feed D (dev, tr) (start_cond @ wr_frame_edges af) = (dev1, tr @ [HasDevice a])"
    and o1: "nodev_open a dev1"
    using open_absent [OF assms(1-7)] by blast
  obtain dev2 where 2: "feed D (dev1, tr @ [HasDevice a]) (concat (map wr_frame_edges dfs))
                         = (dev2, tr @ [HasDevice a])"
    and o2: "nodev_open a dev2"
    using absent_data_frames [OF o1 assms(8)] by blast
  have na: "a \<noteq> 0xff"
    using assms(4) by (rule addr_not_ff)
  have 3: "feed D (dev, tr) (write_txn af dfs sl) = feed D (dev2, tr @ [HasDevice a]) (stop_cond sl)"
    using 1 2 by (simp add: write_txn_def feed_append del: append_assoc flip: append_assoc)
  have "snd (feed D (dev, tr) (write_txn af dfs sl)) = tr @ [HasDevice a, Stop a]
         \<and> state (fst (feed D (dev, tr) (write_txn af dfs sl))) = I2C_IDLE"
    unfolding 3 using o2 na unfolding nodev_open_def
    by (elim conjE disjE) (simp_all add: feed_stop)
  then show ?thesis
    using 1 o1 2 o2 by blast
qed

lemma set_stop:
  assumes "stop_detected dev c d"
  shows "i2c_gpio_set D (dev, tr) c d
         = (dev\<lparr>state := I2C_IDLE, slave_addr := 0xff, slave_state := SLAVE_IDLE,
                transmit := TRANSMITTER_MASTER, last_sda := d, scl := c\<rparr>,
            if slave_addr dev \<noteq> 0xff then tr @ [Stop (slave_addr dev)] else tr)"
  using assms unfolding stop_detected_def
  by (cases "state dev") (simp_all add: set_defs i2c_gpio_stop_def)

lemma absent_address_frame:
  assumes "state dev = I2C_IDLE" and "slave_state dev = SLAVE_IDLE"
    and "a < 0x80" and "\<not> has_device D a"
    and "payload af = addr_byte a rd" and "wr_frame_ok af"
  shows "slave_state (fst (feed D (dev, tr) (start_cond @ wr_frame_edges af))) = SLAVE_INVALID
       \<and> slave_addr (fst (feed D (dev, tr) (start_cond @ wr_frame_edges af))) = a
       \<and> snd (feed D (dev, tr) (start_cond @ wr_frame_edges af)) = tr @ [HasDevice a]"
  using assms
  by (simp add: feed_append feed_start recv_frame write_addr_absent)

section \<open>Invariants of the reachable states\<close>

text \<open>
  Three facts about every call of \<open>i2c_gpio_set\<close>, each proved wire state by wire state:
  it keeps \<open>addr_inv\<close>, it keeps \<open>idle_ok\<close>, and the directory calls it makes obey
  \<open>lockstep\<close>.
\<close>

lemma txn_open_append: "txn_open b (xs @ ys) = txn_open (txn_open b xs) ys"
  by (induction b xs rule: txn_open.induct) simp_all

lemma open_txn_snoc:
  "open_txn (tr @ [Start a]) = True"
  "open_txn (tr @ [Stop a]) = False"
  "open_txn (tr @ [HasDevice a]) = open_txn tr"
  "open_txn (tr @ [Read a v]) = open_txn tr"
  "open_txn (tr @ [Write a v]) = open_txn tr"
  by (simp_all add: open_txn_def txn_open_append)

lemma drop_bit_not_ff: "drop_bit 1 (x :: 8 word) \<noteq> 0xff"
proof
  assume "drop_bit 1 x = 0xff"
  then have "bit (drop_bit 1 x) 7 = bit (0xff :: 8 word) 7" by simp
  moreover have "\<not> bit (drop_bit 1 x) 7"
    by (simp only: bit_drop_bit_eq o_apply) (auto dest: bit_imp_le_length)
  moreover have "bit (0xff :: 8 word) 7" by simp
  ultimately show False by simp
qed

text \<open>
  The invariant \<open>addr_inv\<close> is kept by each operation and so by every call and every
  sequence of calls.
\<close>

lemma set_tail_snd: "snd (set_tail s c d) = snd s"
  and set_tail_addr: "slave_addr (fst (set_tail s c d)) = slave_addr (fst s)"
  and set_tail_state: "state (fst (set_tail s c d)) = state (fst s)"
  and set_tail_sstate: "slave_state (fst (set_tail s c d)) = slave_state (fst s)"
  by (cases s; simp add: set_tail_def)+

lemma stop_inv: "addr_inv s \<Longrightarrow> addr_inv (i2c_gpio_stop s)"
  by (cases s) (simp add: addr_inv_def i2c_gpio_stop_def open_txn_snoc)

lemma write_inv: "addr_inv s \<Longrightarrow> addr_inv (i2c_gpio_write D s)"
  by (cases s; cases "slave_state (fst s)")
     (simp_all add: addr_inv_def i2c_gpio_write_def open_txn_snoc Let_def drop_bit_not_ff
        drop_bit_not_ff [simplified])

lemma set_tail_inv: "addr_inv s \<Longrightarrow> addr_inv (set_tail s c d)"
  by (simp add: addr_inv_def set_tail_snd set_tail_addr)

lemma addr_inv_upd:
  "addr_inv (dev\<lparr>state := x\<rparr>, tr) = addr_inv (dev, tr)"
  "addr_inv (dev\<lparr>pos := p\<rparr>, tr) = addr_inv (dev, tr)"
  "addr_inv (dev\<lparr>byte := b\<rparr>, tr) = addr_inv (dev, tr)"
  "addr_inv (dev\<lparr>slave_state := y\<rparr>, tr) = addr_inv (dev, tr)"
  "addr_inv (dev\<lparr>scl := c\<rparr>, tr) = addr_inv (dev, tr)"
  "addr_inv (dev\<lparr>sda := c\<rparr>, tr) = addr_inv (dev, tr)"
  by (simp_all add: addr_inv_def)

lemma addr_inv_case:
  "addr_inv (case p of (dev2, tr2) \<Rightarrow> (dev2\<lparr>state := x\<rparr>, tr2)) = addr_inv p"
  "addr_inv (case p of (dev2, tr2) \<Rightarrow> (dev2\<lparr>pos := q\<rparr>, tr2)) = addr_inv p"
  by (cases p; simp add: addr_inv_upd)+

lemma case_receive_inv: "addr_inv s \<Longrightarrow> addr_inv (case_receive D s c d)"
  by (cases s)
     (simp add: case_receive_def Let_def addr_inv_upd addr_inv_case write_inv stop_inv)

lemma case_transmit_inv:
  "addr_inv s \<Longrightarrow> addr_inv (case case_transmit s c of Inl r \<Rightarrow> r | Inr b \<Rightarrow> set_tail b c d)"
  by (cases s) (simp add: case_transmit_def addr_inv_def set_tail_snd set_tail_addr)

lemma addr_inv_read: "addr_inv (dev, tr @ [Read a v]) = addr_inv (dev, tr)"
  by (simp add: addr_inv_def open_txn_snoc)

lemma set_inv: "addr_inv s \<Longrightarrow> addr_inv (i2c_gpio_set D s c d)"
proof (cases s)
  case (Pair dev tr)
  assume "addr_inv s"
  then have a: "addr_inv (dev, tr)" by (simp add: Pair)
  show ?thesis
  proof (cases "state dev")
    case I2C_TRANSACKNOWLEDGE
    then show ?thesis
      using a unfolding Pair
      by (simp add: i2c_gpio_set_def i2c_gpio_next_byte_def Let_def addr_inv_upd addr_inv_read
            set_tail_inv stop_inv)
  next
    case I2C_TRANSMIT_WAIT
    then show ?thesis
      using a unfolding Pair
      by (cases "last_sda dev = 0"; cases "d = 0")
         (simp_all add: i2c_gpio_set_def i2c_gpio_next_byte_def Let_def addr_inv_upd addr_inv_read
            set_tail_inv stop_inv)
  qed (use a in \<open>simp_all add: Pair i2c_gpio_set_def Let_def addr_inv_upd addr_inv_case
         set_tail_inv case_receive_inv case_transmit_inv stop_inv\<close>)
qed

lemma feed_inv: "addr_inv s \<Longrightarrow> addr_inv (feed D s es)"
  by (induction es arbitrary: s) (simp_all add: set_inv)

lemma init_inv: "addr_inv (i2c_gpio_init, [])"
  by (simp add: addr_inv_def i2c_gpio_init_def open_txn_def)

lemmas all_defs = lockstep_def emitted_def idle_ok_def set_defs i2c_gpio_stop_def i2c_gpio_write_def i2c_gpio_next_byte_def Let_def

lemma set_lockstep:
  "lockstep D dev (fst (i2c_gpio_set D (dev, tr) c d)) (emitted D (dev, tr) c d)"
proof (cases "state dev")
  case I2C_TRANSMIT_WAIT
  then show ?thesis
    by (cases "last_sda dev = 0"; cases "d = 0") (simp_all add: all_defs)
next
  case I2C_RECEIVE
  then show ?thesis
    by (cases "slave_state dev") (simp_all add: all_defs)
next
  case I2C_RECEIVE_WAIT
  then show ?thesis
    by (cases "scl dev = 0"; cases "c = 0"; cases "slave_state dev") (simp_all add: all_defs)
next
  case I2C_TRANSMIT_START
  then show ?thesis
    by (cases "scl dev = 0"; cases "c = 0") (simp_all add: all_defs)
qed (simp_all add: all_defs)

lemma set_emitted: "snd (i2c_gpio_set D (dev, tr) c d) = tr @ emitted D (dev, tr) c d"
proof (cases "state dev")
  case I2C_TRANSMIT_WAIT
  then show ?thesis
    by (cases "last_sda dev = 0"; cases "d = 0") (simp_all add: all_defs)
next
  case I2C_RECEIVE
  then show ?thesis
    by (cases "slave_state dev") (simp_all add: all_defs)
next
  case I2C_RECEIVE_WAIT
  then show ?thesis
    by (cases "scl dev = 0"; cases "c = 0"; cases "slave_state dev") (simp_all add: all_defs)
next
  case I2C_TRANSMIT_START
  then show ?thesis
    by (cases "scl dev = 0"; cases "c = 0") (simp_all add: all_defs)
qed (simp_all add: all_defs)

lemma set_idle_ok:
  assumes "idle_ok dev"
  shows "idle_ok (fst (i2c_gpio_set D (dev, tr) c d))"
  using assms
proof (cases "state dev")
  case I2C_TRANSMIT_WAIT
  then show ?thesis
    by (cases "last_sda dev = 0"; cases "d = 0") (simp_all add: all_defs)
next
  case I2C_RECEIVE
  then show ?thesis
    by (cases "slave_state dev") (simp_all add: all_defs)
next
  case I2C_RECEIVE_WAIT
  then show ?thesis
    by (cases "scl dev = 0"; cases "c = 0"; cases "slave_state dev") (simp_all add: all_defs)
next
  case I2C_TRANSMIT_START
  then show ?thesis
    by (cases "scl dev = 0"; cases "c = 0") (simp_all add: all_defs)
qed (simp_all add: all_defs)

lemma feed_idle_ok: "idle_ok (fst s) \<Longrightarrow> idle_ok (fst (feed D s es))"
proof (induction es arbitrary: s)
  case Nil
  then show ?case by simp
next
  case (Cons e es)
  have "idle_ok (fst (i2c_gpio_set D s (fst e) (snd e)))"
    using set_idle_ok [OF Cons.prems, of D "snd s" "fst e" "snd e"] by simp
  then show ?case using Cons.IH by simp
qed

lemma reachable_idle:
  assumes "state (fst (feed D (i2c_gpio_init, []) es)) = I2C_IDLE"
  shows "slave_addr (fst (feed D (i2c_gpio_init, []) es)) = 0xff
         \<and> slave_state (fst (feed D (i2c_gpio_init, []) es)) = SLAVE_IDLE"
proof -
  have "idle_ok (fst (i2c_gpio_init, []))"
    by (simp add: idle_ok_def i2c_gpio_init_def)
  then have "idle_ok (fst (feed D (i2c_gpio_init, []) es))"
    by (rule feed_idle_ok)
  then show ?thesis using assms by (simp add: idle_ok_def)
qed

section \<open>Read transactions\<close>

text \<open>
  The time line \<open>observe\<close> of a receiving phase holds only directory calls. In a
  transmitting phase each clock pulse shows bit 7 of \<open>dev->byte\<close> and shifts the byte;
  after eight pulses the master's acknowledge fetches the next byte or ends the
  transaction.
\<close>

lemma observe_append:
  "observe D s (xs @ ys) = observe D s xs @ observe D (feed D s xs) ys"
  by (induction xs arbitrary: s) simp_all

lemma set_low_snd: "snd (i2c_gpio_set D (dev, tr) 0 d) = tr"
  by (cases "state dev") (simp_all add: set_defs)

lemma observe_lows: "observe D s (map (Pair 0) lows) = []"
proof (induction lows arbitrary: s)
  case Nil
  then show ?case by simp
next
  case (Cons x xs)
  show ?case
    using Cons.IH set_low_snd [of D "fst s" "snd s" x]
    by (simp add: emitted_def tx_rising_def)
qed

lemma observe_rx_pulse:
  assumes "state dev \<notin> {I2C_TRANSMIT, I2C_TRANSMIT_START}"
  shows "observe D (dev, tr) (clk_pulse lows d)
         = map Call (drop (length tr) (snd (feed D (dev, tr) (clk_pulse lows d))))"
proof -
  obtain x c where 1: "feed D (dev, tr) (map (Pair 0) lows) = (dev\<lparr>last_sda := x, scl := c\<rparr>, tr)"
    using feed_lows_any [of dev D tr lows] assms by auto
  show ?thesis
    using assms
    by (simp add: clk_pulse_def observe_append observe_lows feed_append 1 emitted_def tx_rising_def)
qed


lemma observe_pulse_receive:
  assumes "state dev = I2C_RECEIVE \<or> state dev = I2C_RECEIVE_WAIT"
    and "lows \<noteq> []" and "pos dev + 1 \<noteq> 8"
  shows "observe D (dev, tr) (clk_pulse lows d) = []"
proof -
  have "state dev \<notin> {I2C_TRANSMIT, I2C_TRANSMIT_START}"
    using assms(1) by auto
  then show ?thesis
    using assms by (simp add: observe_rx_pulse pulse_receive)
qed

lemma observe_pulse_receive_last:
  assumes "state dev = I2C_RECEIVE \<or> state dev = I2C_RECEIVE_WAIT"
    and "lows \<noteq> []" and "pos dev + 1 = 8"
  shows "observe D (dev, tr) (clk_pulse lows d)
         = map Call (drop (length tr)
             (snd (i2c_gpio_write D (dev\<lparr>byte := shift_in (byte dev) d\<rparr>, tr))))"
proof -
  have "state dev \<notin> {I2C_TRANSMIT, I2C_TRANSMIT_START}"
    using assms(1) by auto
  then show ?thesis
    using assms by (simp add: observe_rx_pulse pulse_receive_last split: prod.splits)
qed

lemma recv_pulses8_observe:
  assumes "state dev = I2C_RECEIVE \<or> state dev = I2C_RECEIVE_WAIT" and "pos dev = 0"
    and "l1 \<noteq> []" "l2 \<noteq> []" "l3 \<noteq> []" "l4 \<noteq> []" "l5 \<noteq> []" "l6 \<noteq> []" "l7 \<noteq> []" "l8 \<noteq> []"
  shows "observe D (dev, tr)
           (pulses [(l1, d1), (l2, d2), (l3, d3), (l4, d4), (l5, d5), (l6, d6), (l7, d7), (l8, d8)])
         = map Call (drop (length tr) (snd (i2c_gpio_write D
                   (dev\<lparr>byte := shift_in (shift_in (shift_in (shift_in (shift_in (shift_in
                      (shift_in (shift_in (byte dev) d1) d2) d3) d4) d5) d6) d7) d8\<rparr>, tr))))"
  using assms
  by (cases "slave_state dev")
     (simp_all add: observe_append feed_append observe_pulse_receive observe_pulse_receive_last
        pulse_receive i2c_gpio_write_def Let_def)

lemma recv_byte_observe:
  assumes "state dev = I2C_RECEIVE \<or> state dev = I2C_RECEIVE_WAIT" and "pos dev = 0"
    and "length ls = 8" and "[] \<notin> set ls"
  shows "observe D (dev, tr) (send_byte ls v)
         = map Call (drop (length tr) (snd (i2c_gpio_write D (dev\<lparr>byte := v\<rparr>, tr))))"
proof -
  obtain l1 l2 l3 l4 l5 l6 l7 l8 where ls: "ls = [l1, l2, l3, l4, l5, l6, l7, l8]"
    using assms(3) by (rule length8)
  have ne: "l1 \<noteq> []" "l2 \<noteq> []" "l3 \<noteq> []" "l4 \<noteq> []" "l5 \<noteq> []" "l6 \<noteq> []" "l7 \<noteq> []" "l8 \<noteq> []"
    using assms(4) by (auto simp: ls)
  show ?thesis
    unfolding send_byte_def ls bits8_def list.map zip_Cons_Cons zip_Nil
    by (simp only: recv_pulses8_observe [OF assms(1,2) ne] shift_in_nested)
qed

lemma recv_frame_observe:
  assumes "state dev = I2C_RECEIVE \<or> state dev = I2C_RECEIVE_WAIT" and "pos dev = 0"
    and "wr_frame_ok f"
  shows "observe D (dev, tr) (wr_frame_edges f)
         = map Call (drop (length tr) (snd (i2c_gpio_write D (dev\<lparr>byte := payload f\<rparr>, tr))))"
proof -
  obtain dev2 tr2 where w: "i2c_gpio_write D (dev\<lparr>byte := payload f\<rparr>, tr) = (dev2, tr2)"
    by (cases "i2c_gpio_write D (dev\<lparr>byte := payload f\<rparr>, tr)")
  have "drop (length tr2) tr2 = []" by simp
  then show ?thesis
    using assms
    by (simp add: wr_frame_edges_def wr_frame_ok_def observe_append recv_byte_observe recv_byte
          observe_rx_pulse pulse_ack w)
qed

lemma observe_start:
  assumes "state dev = I2C_IDLE"
  shows "observe D (dev, tr) start_cond = []"
  using assms by (simp add: start_cond_def emitted_def tx_rising_def set_defs)

lemma observe_stop_idle:
  assumes "state dev = I2C_IDLE"
  shows "observe D (dev, tr) (stop_cond lows) = []"
proof -
  obtain x c where 1: "feed D (dev, tr) (map (Pair 0) (lows @ [0])) = (dev\<lparr>last_sda := x, scl := c\<rparr>, tr)"
    using feed_lows_any [of dev D tr "lows @ [0]"] assms by auto
  have 2: "feed D (dev, tr) (map (Pair 0) (lows @ [0])) = (dev\<lparr>last_sda := 0, scl := 0\<rparr>, tr)"
    using feed_lows [of "lows @ [0]" dev D tr] assms by simp
  have o: "observe D (dev, tr) (map (Pair 0) (lows @ [0])) = []"
    by (rule observe_lows)
  have s: "stop_cond lows = map (Pair 0) (lows @ [0]) @ [(1, 0), (1, 1)]"
    by (simp add: stop_cond_def)
  show ?thesis
    unfolding s observe_append o 2
    using assms by (simp add: emitted_def tx_rising_def set_defs)
qed

lemma and80: "(w AND 0x80 \<noteq> 0) = bit (w :: 8 word) 7"
proof -
  have "(0x80 :: 8 word) = push_bit 7 1" by simp
  then show ?thesis
    by (simp only: bit_iff_and_push_bit_not_eq_0)
qed

lemma set_rise_transmit:
  assumes "state dev = I2C_TRANSMIT \<or> state dev = I2C_TRANSMIT_START"
    and "scl dev = 0" and "c \<noteq> 0"
  shows "i2c_gpio_set D (dev, tr) c d
         = (dev\<lparr>state := I2C_TRANSMIT, scl := c, sda := byte dev AND 0x80,
                byte := push_bit 1 (byte dev), pos := pos dev + 1\<rparr>, tr)"
  using assms(1)
proof
  assume "state dev = I2C_TRANSMIT"
  then show ?thesis using assms(2-) by (simp add: set_defs)
next
  assume "state dev = I2C_TRANSMIT_START"
  then show ?thesis using assms(2-) by (simp add: set_defs)
qed

lemma pulse_transmit:
  assumes "state dev = I2C_TRANSMIT \<or> state dev = I2C_TRANSMIT_START"
    and "lows \<noteq> []" and "pos dev \<noteq> 8"
  shows "feed D (dev, tr) (clk_pulse lows d)
         = (dev\<lparr>state := I2C_TRANSMIT, last_sda := last lows, scl := 1, sda := byte dev AND 0x80,
                byte := push_bit 1 (byte dev), pos := pos dev + 1\<rparr>, tr)"
    and "observe D (dev, tr) (clk_pulse lows d) = [Level (bit (byte dev) 7)]"
proof -
  have 1: "feed D (dev, tr) (map (Pair 0) lows) = (dev\<lparr>last_sda := last lows, scl := 0\<rparr>, tr)"
    using assms by (intro feed_lows) auto
  have 2: "i2c_gpio_set D (dev\<lparr>last_sda := last lows, scl := 0\<rparr>, tr) 1 d
         = (dev\<lparr>state := I2C_TRANSMIT, last_sda := last lows, scl := 1, sda := byte dev AND 0x80,
                byte := push_bit 1 (byte dev), pos := pos dev + 1\<rparr>, tr)"
    using assms(1) by (subst set_rise_transmit) (simp_all del: push_bit_eq_mult)
  show "feed D (dev, tr) (clk_pulse lows d)
         = (dev\<lparr>state := I2C_TRANSMIT, last_sda := last lows, scl := 1, sda := byte dev AND 0x80,
                byte := push_bit 1 (byte dev), pos := pos dev + 1\<rparr>, tr)"
    by (simp only: clk_pulse_def feed_append 1 feed.simps fst_conv snd_conv 2)
  show "observe D (dev, tr) (clk_pulse lows d) = [Level (bit (byte dev) 7)]"
    using assms(1)
    by (simp add: clk_pulse_def observe_append observe_lows 1 emitted_def 2 tx_rising_def
          i2c_gpio_get_sda_def and80 del: push_bit_eq_mult)
qed


lemma bit_double: "bit (w * 2 :: 8 word) n = (0 < n \<and> n < 8 \<and> bit w (n - 1))"
  using bit_push1 [of w n] by simp

lemma bit7_shifted:
  fixes w :: "8 word"
  shows "bit (4 * w) 7 = bit w 5" "bit (8 * w) 7 = bit w 4" "bit (16 * w) 7 = bit w 3"
    "bit (32 * w) 7 = bit w 2" "bit (64 * w) 7 = bit w 1" "bit (128 * w) 7 = bit w 0"
  using bit_push_bit_iff [of 2 w 7] bit_push_bit_iff [of 3 w 7] bit_push_bit_iff [of 4 w 7]
    bit_push_bit_iff [of 5 w 7] bit_push_bit_iff [of 6 w 7] bit_push_bit_iff [of 7 w 7]
  by (simp_all add: push_bit_eq_mult mult.commute)

lemma tx_pulses8:
  assumes "state dev = I2C_TRANSMIT \<or> state dev = I2C_TRANSMIT_START" and "pos dev = 0"
    and "l1 \<noteq> []" "l2 \<noteq> []" "l3 \<noteq> []" "l4 \<noteq> []" "l5 \<noteq> []" "l6 \<noteq> []" "l7 \<noteq> []" "l8 \<noteq> []"
  shows "\<exists>dev'. feed D (dev, tr)
           (pulses [(l1, d1), (l2, d2), (l3, d3), (l4, d4), (l5, d5), (l6, d6), (l7, d7), (l8, d8)])
             = (dev', tr)
           \<and> state dev' = I2C_TRANSMIT \<and> pos dev' = 8 \<and> scl dev' = 1
           \<and> slave_addr dev' = slave_addr dev"
    and "observe D (dev, tr)
           (pulses [(l1, d1), (l2, d2), (l3, d3), (l4, d4), (l5, d5), (l6, d6), (l7, d7), (l8, d8)])
         = map Level (bits8 (byte dev))"
  using assms
  by (simp_all add: feed_append observe_append pulse_transmit bits8_def bit_push1 bit_double bit7_shifted)

lemma tx_byte:
  assumes "state dev = I2C_TRANSMIT \<or> state dev = I2C_TRANSMIT_START" and "pos dev = 0"
    and "length ps = 8" and "[] \<notin> set (map fst ps)"
  shows "\<exists>dev'. feed D (dev, tr) (pulses ps) = (dev', tr)
           \<and> state dev' = I2C_TRANSMIT \<and> pos dev' = 8 \<and> scl dev' = 1
           \<and> slave_addr dev' = slave_addr dev"
    and "observe D (dev, tr) (pulses ps) = map Level (bits8 (byte dev))"
proof -
  obtain p1 p2 p3 p4 p5 p6 p7 p8 where ps: "ps = [p1, p2, p3, p4, p5, p6, p7, p8]"
    using assms(3) by (rule length8)
  have ps': "ps = [(fst p1, snd p1), (fst p2, snd p2), (fst p3, snd p3), (fst p4, snd p4),
                   (fst p5, snd p5), (fst p6, snd p6), (fst p7, snd p7), (fst p8, snd p8)]"
    by (simp add: ps)
  have ne: "fst p1 \<noteq> []" "fst p2 \<noteq> []" "fst p3 \<noteq> []" "fst p4 \<noteq> []"
    "fst p5 \<noteq> []" "fst p6 \<noteq> []" "fst p7 \<noteq> []" "fst p8 \<noteq> []"
    using assms(4) by (auto simp: ps)
  show "\<exists>dev'. feed D (dev, tr) (pulses ps) = (dev', tr)
           \<and> state dev' = I2C_TRANSMIT \<and> pos dev' = 8 \<and> scl dev' = 1
           \<and> slave_addr dev' = slave_addr dev"
    by (subst ps') (rule tx_pulses8 (1) [OF assms(1,2) ne])
  show "observe D (dev, tr) (pulses ps) = map Level (bits8 (byte dev))"
    by (subst ps') (rule tx_pulses8 (2) [OF assms(1,2) ne])
qed

lemma feed_lows_transack:
  assumes "state dev = I2C_TRANSMIT" and "pos dev = 8" and "scl dev \<noteq> 0" and "lows \<noteq> []"
  shows "feed D (dev, tr) (map (Pair 0) lows)
         = (dev\<lparr>state := I2C_TRANSACKNOWLEDGE, last_sda := last lows, scl := 0\<rparr>, tr)"
proof (cases lows)
  case Nil
  then show ?thesis using assms(4) by simp
next
  case (Cons x xs)
  have 1: "i2c_gpio_set D (dev, tr) 0 x
           = (dev\<lparr>state := I2C_TRANSACKNOWLEDGE, last_sda := x, scl := 0\<rparr>, tr)"
    using assms(1-3) by (simp add: set_defs)
  show ?thesis
  proof (cases "xs = []")
    case True
    then show ?thesis by (simp add: Cons 1)
  next
    case False
    have "feed D (dev\<lparr>state := I2C_TRANSACKNOWLEDGE, last_sda := x, scl := 0\<rparr>, tr) (map (Pair 0) xs)
          = (dev\<lparr>state := I2C_TRANSACKNOWLEDGE, last_sda := x, scl := 0\<rparr>
                \<lparr>last_sda := last xs, scl := 0\<rparr>, tr)"
      using False by (intro feed_lows) simp_all
    then show ?thesis using False by (simp add: Cons 1)
  qed
qed

lemma pulse_master_ack:
  assumes "state dev = I2C_TRANSMIT" and "pos dev = 8" and "scl dev \<noteq> 0" and "lows \<noteq> []"
  shows "feed D (dev, tr) (clk_pulse lows 0)
         = (dev\<lparr>state := I2C_TRANSMIT_START, byte := read_byte D tr (slave_addr dev), pos := 0,
                sda := 0, last_sda := 0, scl := 1\<rparr>,
            tr @ [Read (slave_addr dev) (read_byte D tr (slave_addr dev))])"
    and "observe D (dev, tr) (clk_pulse lows 0)
         = [Call (Read (slave_addr dev) (read_byte D tr (slave_addr dev)))]"
  using assms
  by (simp_all add: clk_pulse_def feed_append observe_append observe_lows feed_lows_transack
        emitted_def tx_rising_def set_defs i2c_gpio_next_byte_def Let_def)

lemma pulse_master_nack:
  assumes "state dev = I2C_TRANSMIT" and "pos dev = 8" and "scl dev \<noteq> 0" and "lows \<noteq> []"
    and "m \<noteq> 0" and "slave_addr dev \<noteq> 0xff"
  shows "feed D (dev, tr) (clk_pulse lows m)
         = (dev\<lparr>state := I2C_IDLE, slave_addr := 0xff, slave_state := SLAVE_IDLE,
                transmit := TRANSMITTER_MASTER, sda := m, last_sda := m, scl := 1\<rparr>,
            tr @ [Stop (slave_addr dev)])"
    and "observe D (dev, tr) (clk_pulse lows m) = [Call (Stop (slave_addr dev))]"
  using assms
  by (simp_all add: clk_pulse_def feed_append observe_append observe_lows feed_lows_transack
        emitted_def tx_rising_def set_defs i2c_gpio_stop_def)

lemma read_frame_ack:
  assumes "tx_ready a v dev" and "rd_frame_ok f" and "mack_level f = 0"
  shows "\<exists>dev'. feed D (dev, tr) (rd_frame_edges f) = (dev', tr @ [Read a (read_byte D tr a)])
               \<and> tx_ready a (read_byte D tr a) dev'
               \<and> observe D (dev, tr) (rd_frame_edges f)
                   = map Level (bits8 v) @ [Call (Read a (read_byte D tr a))]"
proof -
  have st: "state dev = I2C_TRANSMIT \<or> state dev = I2C_TRANSMIT_START" and p: "pos dev = 0"
    and b: "byte dev = v" and sa: "slave_addr dev = a"
    using assms(1) by (simp_all add: tx_ready_def)
  have ok: "length (bit_pulses f) = 8" "[] \<notin> set (map fst (bit_pulses f))" "mack_lows f \<noteq> []"
    using assms(2) by (simp_all add: rd_frame_ok_def)
  obtain dev1 where 1: "feed D (dev, tr) (pulses (bit_pulses f)) = (dev1, tr)"
    and s1: "state dev1 = I2C_TRANSMIT" "pos dev1 = 8" "scl dev1 = 1" "slave_addr dev1 = a"
    using tx_byte(1) [OF st p ok(1,2), of D tr] sa by auto
  have o1: "observe D (dev, tr) (pulses (bit_pulses f)) = map Level (bits8 v)"
    using tx_byte(2) [OF st p ok(1,2), of D tr] b by simp
  have z: "scl dev1 \<noteq> 0" using s1(3) by simp
  show ?thesis
    using pulse_master_ack [OF s1(1,2) z ok(3), of D tr] s1(4)
    by (simp add: rd_frame_edges_def feed_append observe_append 1 o1 assms(3) tx_ready_def)
qed

lemma read_frame_nack:
  assumes "tx_ready a v dev" and "rd_frame_ok f" and "mack_level f \<noteq> 0" and "a \<noteq> 0xff"
  shows "\<exists>dev'. feed D (dev, tr) (rd_frame_edges f) = (dev', tr @ [Stop a])
               \<and> state dev' = I2C_IDLE \<and> slave_addr dev' = 0xff \<and> slave_state dev' = SLAVE_IDLE
               \<and> observe D (dev, tr) (rd_frame_edges f) = map Level (bits8 v) @ [Call (Stop a)]"
proof -
  have st: "state dev = I2C_TRANSMIT \<or> state dev = I2C_TRANSMIT_START" and p: "pos dev = 0"
    and b: "byte dev = v" and sa: "slave_addr dev = a"
    using assms(1) by (simp_all add: tx_ready_def)
  have ok: "length (bit_pulses f) = 8" "[] \<notin> set (map fst (bit_pulses f))" "mack_lows f \<noteq> []"
    using assms(2) by (simp_all add: rd_frame_ok_def)
  obtain dev1 where 1: "feed D (dev, tr) (pulses (bit_pulses f)) = (dev1, tr)"
    and s1: "state dev1 = I2C_TRANSMIT" "pos dev1 = 8" "scl dev1 = 1" "slave_addr dev1 = a"
    using tx_byte(1) [OF st p ok(1,2), of D tr] sa by auto
  have o1: "observe D (dev, tr) (pulses (bit_pulses f)) = map Level (bits8 v)"
    using tx_byte(2) [OF st p ok(1,2), of D tr] b by simp
  have z: "scl dev1 \<noteq> 0" using s1(3) by simp
  have na: "slave_addr dev1 \<noteq> 0xff" using s1(4) assms(4) by simp
  show ?thesis
    using pulse_master_nack [OF s1(1,2) z ok(3) assms(3) na, of D tr] s1(4)
    by (simp add: rd_frame_edges_def feed_append observe_append 1 o1)
qed

lemma read_frames:
  assumes "rfs \<noteq> []" and "tx_ready a v dev" and "\<forall>f \<in> set rfs. rd_frame_ok f"
    and "\<forall>f \<in> set (butlast rfs). mack_level f = 0" and "mack_level (last rfs) \<noteq> 0"
    and "a \<noteq> 0xff"
  shows "\<exists>dev'. feed D (dev, tr) (concat (map rd_frame_edges rfs))
                  = (dev', tr @ map (Read a) (reads D a tr (length rfs - 1)) @ [Stop a])
               \<and> state dev' = I2C_IDLE \<and> slave_addr dev' = 0xff \<and> slave_state dev' = SLAVE_IDLE
               \<and> observe D (dev, tr) (concat (map rd_frame_edges rfs))
                   = map Level (bits8 v)
                     @ concat (map (\<lambda>v. Call (Read a v) # map Level (bits8 v))
                                 (reads D a tr (length rfs - 1)))
                     @ [Call (Stop a)]"
  using assms
proof (induction rfs arbitrary: dev tr v rule: list_nonempty_induct)
  case (single f)
  then show ?case
    using read_frame_nack [of a v dev f D tr] by simp
next
  case (cons f rfs)
  let ?v = "read_byte D tr a"
  have f: "rd_frame_ok f" "mack_level f = 0"
    using cons.prems(2,3) cons.hyps by simp_all
  obtain dev1 where 1: "feed D (dev, tr) (rd_frame_edges f) = (dev1, tr @ [Read a ?v])"
    and r1: "tx_ready a ?v dev1"
    and o1: "observe D (dev, tr) (rd_frame_edges f) = map Level (bits8 v) @ [Call (Read a ?v)]"
    using read_frame_ack [OF cons.prems(1) f, of D tr] by blast
  have rest: "\<forall>f \<in> set rfs. rd_frame_ok f" "\<forall>f \<in> set (butlast rfs). mack_level f = 0"
    "mack_level (last rfs) \<noteq> 0"
    using cons.prems(2,3,4) cons.hyps by simp_all
  obtain dev2 where 2: "feed D (dev1, tr @ [Read a ?v]) (concat (map rd_frame_edges rfs))
                  = (dev2, (tr @ [Read a ?v])
                           @ map (Read a) (reads D a (tr @ [Read a ?v]) (length rfs - 1)) @ [Stop a])"
    and s2: "state dev2 = I2C_IDLE" "slave_addr dev2 = 0xff" "slave_state dev2 = SLAVE_IDLE"
    and o2: "observe D (dev1, tr @ [Read a ?v]) (concat (map rd_frame_edges rfs))
                   = map Level (bits8 ?v)
                     @ concat (map (\<lambda>v. Call (Read a v) # map Level (bits8 v))
                                 (reads D a (tr @ [Read a ?v]) (length rfs - 1)))
                     @ [Call (Stop a)]"
    using cons.IH [OF r1 rest cons.prems(5), of "tr @ [Read a ?v]"] by blast
  obtain n where n: "length rfs = Suc n"
    using cons.hyps by (cases rfs) simp_all
  show ?case
    using s2 by (simp add: feed_append observe_append 1 2 o1 o2 n)
qed

lemma open_read:
  assumes "state dev = I2C_IDLE" and "slave_state dev = SLAVE_IDLE" and "slave_addr dev = 0xff"
    and "a < 0x80" and "has_device D a"
    and "payload af = addr_byte a True" and "wr_frame_ok af"
  shows "\<exists>dev'. feed D (dev, tr) (start_cond @ wr_frame_edges af)
                  = (dev', tr @ [HasDevice a, Start a,
                                 Read a (read_byte D (tr @ [HasDevice a, Start a]) a)])
               \<and> tx_ready a (read_byte D (tr @ [HasDevice a, Start a]) a) dev'
               \<and> observe D (dev, tr) (start_cond @ wr_frame_edges af)
                   = [Call (HasDevice a), Call (Start a),
                      Call (Read a (read_byte D (tr @ [HasDevice a, Start a]) a))]"
  using assms
  by (simp add: feed_append observe_append feed_start observe_start recv_frame recv_frame_observe
        write_addr_present tx_ready_def TRANSMITTER_SLAVE_def TRANSMITTER_MASTER_def Let_def)

section \<open>Writing to a device\<close>

text \<open>
  Claim C1. Let the device be idle with no target address (as after \<open>i2c_gpio_init\<close>
  or after a stop). For every edge sequence made of a start, an address frame for a 7-bit
  address \<open>a\<close> that has a device with the direction bit write, any number of data frames
  and a stop, whatever the levels fed while the clock is low and at the acknowledge
  pulses, the directory sees, after the query \<open>HasDevice a\<close>, exactly \<open>Start a\<close>, then
  one \<open>Write a\<close> per data frame with the bytes sent, in order, then \<open>Stop a\<close>; and the
  device is idle again. (Every reachable state with the wire state IDLE satisfies the
  other two hypotheses: lemma \<open>reachable_idle\<close>.)
\<close>

theorem C1_write_transaction:
  assumes "state dev = I2C_IDLE" and "slave_state dev = SLAVE_IDLE" and "slave_addr dev = 0xff"
    and "a < 0x80" and "has_device D a"
    and "payload af = addr_byte a False" and "wr_frame_ok af"
    and "\<forall>f \<in> set dfs. wr_frame_ok f"
  shows "snd (feed D (dev, tr) (write_txn af dfs sl))
           = tr @ [HasDevice a, Start a] @ map (\<lambda>f. Write a (payload f)) dfs @ [Stop a]
         \<and> state (fst (feed D (dev, tr) (write_txn af dfs sl))) = I2C_IDLE
         \<and> slave_state (fst (feed D (dev, tr) (write_txn af dfs sl))) = SLAVE_IDLE
         \<and> slave_addr (fst (feed D (dev, tr) (write_txn af dfs sl))) = 0xff"
  using assms by (rule write_txn_trace)

theorem C1_write_transaction_witness:
  "snd (feed test_dir (i2c_gpio_init, [])
          (write_txn (std_frame 0xA2) [std_frame 0x42, std_frame 0x17] []))
     = [HasDevice 0x51, Start 0x51, Write 0x51 0x42, Write 0x51 0x17, Stop 0x51]"
proof -
  have ok: "wr_frame_ok (std_frame v)" for v
    by (simp add: wr_frame_ok_def std_frame_def bits8_def)
  have h: "state i2c_gpio_init = I2C_IDLE" "slave_state i2c_gpio_init = SLAVE_IDLE"
    "slave_addr i2c_gpio_init = 0xff" "(0x51 :: 8 word) < 0x80" "has_device test_dir 0x51"
    "payload (std_frame 0xA2) = addr_byte 0x51 False"
    by (simp_all add: i2c_gpio_init_def test_dir_def std_frame_def addr_byte_def)
  have fs: "\<forall>f \<in> set [std_frame 0x42, std_frame 0x17]. wr_frame_ok f"
    by (simp add: ok)
  show ?thesis
    using C1_write_transaction [OF h ok fs, of "[]" "[]"] by (simp add: std_frame_def)
qed

section \<open>Reading from a device\<close>

text \<open>
  Claim C2. Let the device be idle with no target address. For every edge sequence made
  of a start, an address frame for a 7-bit address \<open>a\<close> that has a device with the
  direction bit read, one or more byte frames of which the master acknowledges all but
  the last, and a stop, the time line of directory calls and transmitted levels is:
  \<open>HasDevice a\<close>, one \<open>Start a\<close>, then for each byte one \<open>Read a v\<close> followed by the eight
  levels \<open>i2c_gpio_get_sda\<close> returns on the eight rising clock edges of that byte, which
  are the bits of \<open>v\<close>, most significant first; then \<open>Stop a\<close>, issued at the master's
  not-acknowledge.
\<close>

theorem C2_read_transaction:
  assumes "state dev = I2C_IDLE" and "slave_state dev = SLAVE_IDLE" and "slave_addr dev = 0xff"
    and "a < 0x80" and "has_device D a"
    and "payload af = addr_byte a True" and "wr_frame_ok af"
    and "rfs \<noteq> []" and "\<forall>f \<in> set rfs. rd_frame_ok f"
    and "\<forall>f \<in> set (butlast rfs). mack_level f = 0" and "mack_level (last rfs) \<noteq> 0"
  shows "observe D (dev, tr) (read_txn af rfs sl)
           = [Call (HasDevice a), Call (Start a)]
             @ concat (map (\<lambda>v. Call (Read a v) # map Level (bits8 v))
                         (reads D a (tr @ [HasDevice a, Start a]) (length rfs)))
             @ [Call (Stop a)]
         \<and> snd (feed D (dev, tr) (read_txn af rfs sl))
           = tr @ [HasDevice a, Start a]
             @ map (Read a) (reads D a (tr @ [HasDevice a, Start a]) (length rfs)) @ [Stop a]"
proof -
  let ?v = "read_byte D (tr @ [HasDevice a, Start a]) a"
  let ?tr1 = "tr @ [HasDevice a, Start a, Read a ?v]"
  obtain dev1 where 1: "feed D (dev, tr) (start_cond @ wr_frame_edges af) = (dev1, ?tr1)"
    and r1: "tx_ready a ?v dev1"
    and o1: "observe D (dev, tr) (start_cond @ wr_frame_edges af)
               = [Call (HasDevice a), Call (Start a), Call (Read a ?v)]"
    using open_read [OF assms(1-7), of tr] by blast
  have na: "a \<noteq> 0xff"
    using assms(4) by (rule addr_not_ff)
  obtain dev2 where 2: "feed D (dev1, ?tr1) (concat (map rd_frame_edges rfs))
                  = (dev2, ?tr1 @ map (Read a) (reads D a ?tr1 (length rfs - 1)) @ [Stop a])"
    and s2: "state dev2 = I2C_IDLE"
    and o2: "observe D (dev1, ?tr1) (concat (map rd_frame_edges rfs))
                   = map Level (bits8 ?v)
                     @ concat (map (\<lambda>v. Call (Read a v) # map Level (bits8 v))
                                 (reads D a ?tr1 (length rfs - 1)))
                     @ [Call (Stop a)]"
    using read_frames [OF assms(8) r1 assms(9,10,11) na, of D ?tr1] by blast
  obtain n where n: "length rfs = Suc n"
    using assms(8) by (cases rfs) simp_all
  let ?tr2 = "?tr1 @ map (Read a) (reads D a ?tr1 (length rfs - 1)) @ [Stop a]"
  define A where "A = start_cond @ wr_frame_edges af"
  define B where "B = concat (map rd_frame_edges rfs)"
  have e: "read_txn af rfs sl = A @ B @ stop_cond sl"
    by (simp add: read_txn_def A_def B_def)
  note f1 = 1 [folded A_def] and f2 = 2 [folded B_def]
    and g1 = o1 [folded A_def] and g2 = o2 [folded B_def]
  have F: "feed D (dev, tr) (read_txn af rfs sl) = feed D (dev2, ?tr2) (stop_cond sl)"
    by (simp only: e feed_append f1 f2)
  have O: "observe D (dev, tr) (read_txn af rfs sl)
           = observe D (dev, tr) A @ observe D (dev1, ?tr1) B
             @ observe D (dev2, ?tr2) (stop_cond sl)"
    by (simp only: e feed_append observe_append f1 f2)
  show ?thesis
    unfolding F O g1 g2
    using s2 by (simp add: n feed_stop_idle observe_stop_idle)
qed

theorem C2_read_transaction_witness:
  "observe test_dir (i2c_gpio_init, [])
     (read_txn (std_frame 0xA3) [std_rd_frame 0, std_rd_frame 1] [])
   = [Call (HasDevice 0x51), Call (Start 0x51),
      Call (Read 0x51 0x53),
      Level False, Level True, Level False, Level True,
      Level False, Level False, Level True, Level True,
      Call (Read 0x51 0x54),
      Level False, Level True, Level False, Level True,
      Level False, Level True, Level False, Level False,
      Call (Stop 0x51)]"
proof -
  have h: "state i2c_gpio_init = I2C_IDLE" "slave_state i2c_gpio_init = SLAVE_IDLE"
    "slave_addr i2c_gpio_init = 0xff" "(0x51 :: 8 word) < 0x80" "has_device test_dir 0x51"
    "payload (std_frame 0xA3) = addr_byte 0x51 True"
    "wr_frame_ok (std_frame 0xA3)"
    "[std_rd_frame 0, std_rd_frame 1] \<noteq> []"
    "\<forall>f \<in> set [std_rd_frame 0, std_rd_frame 1]. rd_frame_ok f"
    "\<forall>f \<in> set (butlast [std_rd_frame 0, std_rd_frame 1]). mack_level f = 0"
    "mack_level (last [std_rd_frame 0, std_rd_frame 1]) \<noteq> 0"
    by (simp_all add: i2c_gpio_init_def test_dir_def std_frame_def addr_byte_def wr_frame_ok_def
          bits8_def rd_frame_ok_def std_rd_frame_def)
  have b: "bits8 0x53 = [False, True, False, True, False, False, True, True]"
    "bits8 0x54 = [False, True, False, True, False, True, False, False]"
    by (simp_all add: bits8_def)
  show ?thesis
    using C2_read_transaction [OF h, of "[]" "[]"] by (simp add: test_dir_def b)
qed

section \<open>Repeated start\<close>

text \<open>
  Claim C3, as the code has it. In the wire state RECEIVE, a call with the clock high on
  both sides and the data line falling resets the bit counter and the byte state and
  makes no directory call. For the address frame that follows, the directory is asked
  \<open>HasDevice a\<close>; \<open>Start a\<close> is issued only if \<open>slave_addr\<close> was the sentinel \<open>0xff\<close>
  before the repeated start, that is when no address byte had been decoded since the last
  stop. Inside an open transaction no \<open>Start\<close> is issued, whatever the new address.
\<close>

theorem C3_repeated_start:
  assumes "state dev = I2C_RECEIVE" and "scl dev \<noteq> 0" and "last_sda dev \<noteq> 0" and "c \<noteq> 0"
    and "a < 0x80" and "has_device D a"
    and "payload af = addr_byte a rd" and "wr_frame_ok af"
  shows "i2c_gpio_set D (dev, tr) c 0
           = (dev\<lparr>pos := 0, slave_state := SLAVE_IDLE, last_sda := 0, scl := c\<rparr>, tr)
       \<and> snd (feed D (i2c_gpio_set D (dev, tr) c 0) (wr_frame_edges af))
           = tr @ HasDevice a # (if slave_addr dev = 0xff then [Start a] else [])
               @ (if rd then [Read a (read_byte D
                      (tr @ HasDevice a # (if slave_addr dev = 0xff then [Start a] else [])) a)]
                  else [])"
proof -
  have 1: "i2c_gpio_set D (dev, tr) c 0
           = (dev\<lparr>pos := 0, slave_state := SLAVE_IDLE, last_sda := 0, scl := c\<rparr>, tr)"
    using assms(1-4) by (simp add: set_defs)
  show ?thesis
    unfolding 1 using assms
    by (simp add: recv_frame write_addr_present Let_def)
qed

theorem C3_repeated_start_witness:
  "feed test_dir (i2c_gpio_init, []) (start_cond @ wr_frame_edges (std_frame 0xA2) @ [(0, 1), (1, 1)])
     = (mid_write, [HasDevice 0x51, Start 0x51])
   \<and> i2c_gpio_set test_dir (mid_write, [HasDevice 0x51, Start 0x51]) 1 0
     = (mid_write\<lparr>pos := 0, slave_state := SLAVE_IDLE, last_sda := 0, scl := 1\<rparr>,
        [HasDevice 0x51, Start 0x51])
   \<and> snd (feed test_dir (i2c_gpio_set test_dir (mid_write, [HasDevice 0x51, Start 0x51]) 1 0)
            (wr_frame_edges (std_frame 0xA4)))
     = [HasDevice 0x51, Start 0x51, HasDevice 0x52]"
proof -
  have r: "feed test_dir (i2c_gpio_init, [])
             (start_cond @ wr_frame_edges (std_frame 0xA2) @ [(0, 1), (1, 1)])
           = (mid_write, [HasDevice 0x51, Start 0x51])"
    by code_simp
  have h: "state mid_write = I2C_RECEIVE" "scl mid_write \<noteq> 0" "last_sda mid_write \<noteq> 0"
    "(1 :: 8 word) \<noteq> 0" "(0x52 :: 8 word) < 0x80" "has_device test_dir 0x52"
    "payload (std_frame 0xA4) = addr_byte 0x52 False"
    "wr_frame_ok (std_frame 0xA4)"
    by (simp_all add: mid_write_def test_dir_def std_frame_def addr_byte_def wr_frame_ok_def
          bits8_def)
  have m: "slave_addr mid_write \<noteq> 0xff"
    by (simp add: mid_write_def)
  note c = C3_repeated_start [OF h, of "[HasDevice 0x51, Start 0x51]"]
  have 1: "i2c_gpio_set test_dir (mid_write, [HasDevice 0x51, Start 0x51]) 1 0
     = (mid_write\<lparr>pos := 0, slave_state := SLAVE_IDLE, last_sda := 0, scl := 1\<rparr>,
        [HasDevice 0x51, Start 0x51])"
    using c by (rule conjunct1)
  have 2: "snd (feed test_dir (i2c_gpio_set test_dir (mid_write, [HasDevice 0x51, Start 0x51]) 1 0)
            (wr_frame_edges (std_frame 0xA4)))
     = [HasDevice 0x51, Start 0x51, HasDevice 0x52]"
    using c [THEN conjunct2] m by simp
  show ?thesis
    using r 1 2 by blast
qed

text \<open>
  The claim as stated fails: after a repeated start inside the open transaction to
  \<open>0x51\<close>, the address byte for \<open>0x52\<close>, which has a device, brings \<open>HasDevice 0x52\<close>
  and no \<open>Start 0x52\<close>.
\<close>

theorem C3_repeated_start_counterexample:
  "has_device test_dir 0x52
   \<and> snd (feed test_dir (i2c_gpio_init, [])
            (start_cond @ wr_frame_edges (std_frame 0xA2) @ rep_start []
             @ wr_frame_edges (std_frame 0xA4) @ wr_frame_edges (std_frame 0x42) @ stop_cond []))
     = [HasDevice 0x51, Start 0x51, HasDevice 0x52, Write 0x52 0x42, Stop 0x52]
   \<and> Start 0x52 \<notin> set (snd (feed test_dir (i2c_gpio_init, [])
            (start_cond @ wr_frame_edges (std_frame 0xA2) @ rep_start []
             @ wr_frame_edges (std_frame 0xA4) @ wr_frame_edges (std_frame 0x42) @ stop_cond [])))"
  by code_simp

section \<open>The example write\<close>

text \<open>
  Claim C4, as the code has it. Bit 0 of the address byte is the direction, 1 for read,
  so the write to the address \<open>0x51\<close> has the address byte \<open>0xA2\<close>, not \<open>0xA3\<close>. With a
  device at \<open>0x51\<close>, a start, the address byte \<open>0xA2\<close>, the data byte \<open>0x42\<close> and a stop
  give \<open>HasDevice 0x51\<close>, \<open>Start 0x51\<close>, \<open>Write 0x51 0x42\<close>, \<open>Stop 0x51\<close>, and
  \<open>i2c_gpio_get_sda\<close> returns 0 during the ninth clock period of each byte: from the
  rising edge of the eighth bit (both bytes end with a 0 bit, which is what the wire
  state ACKNOWLEDGE shows), while the clock is low, after the rising edge of the
  acknowledge pulse and for as long as the clock is then held low.
\<close>

theorem C4_example_write:
  assumes "state dev = I2C_IDLE" and "slave_state dev = SLAVE_IDLE" and "slave_addr dev = 0xff"
    and "has_device D 0x51"
    and "payload af = 0xA2" and "wr_frame_ok af"
    and "payload df = 0x42" and "wr_frame_ok df"
  shows "snd (feed D (dev, tr) (write_txn af [df] sl))
           = tr @ [HasDevice 0x51, Start 0x51, Write 0x51 0x42, Stop 0x51]
       \<and> i2c_gpio_get_sda (fst (feed D (dev, tr)
             (start_cond @ send_byte (bit_lows af) 0xA2 @ map (Pair 0) lows))) = 0
       \<and> i2c_gpio_get_sda (fst (feed D (dev, tr)
             (start_cond @ wr_frame_edges af @ map (Pair 0) lows))) = 0
       \<and> i2c_gpio_get_sda (fst (feed D (dev, tr)
             (start_cond @ wr_frame_edges af @ send_byte (bit_lows df) 0x42 @ map (Pair 0) lows))) = 0
       \<and> i2c_gpio_get_sda (fst (feed D (dev, tr)
             (start_cond @ wr_frame_edges af @ wr_frame_edges df @ map (Pair 0) lows))) = 0"
proof -
  have ab: "payload af = addr_byte 0x51 False"
    using assms(5) by (simp add: addr_byte_def)
  have lt: "(0x51 :: 8 word) < 0x80" by simp
  have fs: "\<forall>f \<in> set [df]. wr_frame_ok f"
    using assms(8) by simp
  have t: "snd (feed D (dev, tr) (write_txn af [df] sl))
           = tr @ [HasDevice 0x51, Start 0x51, Write 0x51 0x42, Stop 0x51]"
    using write_txn_trace [OF assms(1-3) lt assms(4) ab assms(6) fs, of tr sl] assms(7) by simp
  have s: "state (fst (feed D (dev, tr) start_cond)) = I2C_RECEIVE"
      "pos (fst (feed D (dev, tr) start_cond)) = 0"
    using assms(1) by (simp_all add: feed_start)
  have a1: "i2c_gpio_get_sda (fst (feed D (dev, tr)
             (start_cond @ wr_frame_edges af @ map (Pair 0) lows))) = 0"
    using ack_window [of "fst (feed D (dev, tr) start_cond)" af D "snd (feed D (dev, tr) start_cond)" lows]
      s assms(6) by (simp add: feed_append)
  obtain dev1 where 1: "feed D (dev, tr) (start_cond @ wr_frame_edges af)
                         = (dev1, tr @ HasDevice 0x51 # (if slave_addr dev = 0xff then [Start 0x51] else []))"
    and o1: "wr_open 0x51 dev1"
    using open_write [OF assms(1,2) lt assms(4) ab assms(6), of tr] by auto
  have a2: "i2c_gpio_get_sda (fst (feed D (dev, tr)
             (start_cond @ wr_frame_edges af @ wr_frame_edges df @ map (Pair 0) lows))) = 0"
    using ack_window [of dev1 df D _ lows] o1 assms(8) 1
    by (simp add: feed_append wr_open_def flip: append_assoc)
  have b1: "i2c_gpio_get_sda (fst (feed D (dev, tr)
             (start_cond @ send_byte (bit_lows af) 0xA2 @ map (Pair 0) lows))) = 0"
    using ack_setup [of "fst (feed D (dev, tr) start_cond)" "bit_lows af" D
        "snd (feed D (dev, tr) start_cond)" "0xA2" lows] s assms(6)
    by (simp add: feed_append wr_frame_ok_def level_def)
  have b2: "i2c_gpio_get_sda (fst (feed D (dev, tr)
             (start_cond @ wr_frame_edges af @ send_byte (bit_lows df) 0x42 @ map (Pair 0) lows))) = 0"
    using ack_setup [of dev1 "bit_lows df" D _ "0x42" lows] o1 assms(8) 1
    by (simp add: feed_append wr_open_def wr_frame_ok_def level_def flip: append_assoc)
  show ?thesis
    using t a1 a2 b1 b2 by blast
qed

theorem C4_example_write_witness:
  "snd (feed test_dir (i2c_gpio_init, []) (write_txn (std_frame 0xA2) [std_frame 0x42] []))
     = [HasDevice 0x51, Start 0x51, Write 0x51 0x42, Stop 0x51]
   \<and> i2c_gpio_get_sda (fst (feed test_dir (i2c_gpio_init, [])
         (start_cond @ send_byte (bit_lows (std_frame 0xA2)) 0xA2 @ map (Pair 0) [0]))) = 0
   \<and> i2c_gpio_get_sda (fst (feed test_dir (i2c_gpio_init, [])
         (start_cond @ wr_frame_edges (std_frame 0xA2) @ map (Pair 0) [0]))) = 0
   \<and> i2c_gpio_get_sda (fst (feed test_dir (i2c_gpio_init, [])
         (start_cond @ wr_frame_edges (std_frame 0xA2)
          @ send_byte (bit_lows (std_frame 0x42)) 0x42 @ map (Pair 0) [0]))) = 0
   \<and> i2c_gpio_get_sda (fst (feed test_dir (i2c_gpio_init, [])
         (start_cond @ wr_frame_edges (std_frame 0xA2) @ wr_frame_edges (std_frame 0x42)
          @ map (Pair 0) [0]))) = 0"
proof -
  have ok: "wr_frame_ok (std_frame v)" for v
    by (simp add: wr_frame_ok_def std_frame_def bits8_def)
  have h: "state i2c_gpio_init = I2C_IDLE" "slave_state i2c_gpio_init = SLAVE_IDLE"
    "slave_addr i2c_gpio_init = 0xff" "has_device test_dir 0x51"
    "payload (std_frame 0xA2) = 0xA2"
    by (simp_all add: i2c_gpio_init_def test_dir_def std_frame_def)
  have p: "payload (std_frame 0x42) = 0x42"
    by (simp add: std_frame_def)
  show ?thesis
    using C4_example_write [OF h ok p ok, of "[]" "[]" "[0]"] by simp
qed

text \<open>
  The claim as stated fails: the address byte \<open>0xA3\<close> opens a read. The directory sees
  a \<open>Read\<close> and no \<open>Write\<close>; the master's released data line at the ninth pulse of
  the second byte is taken as a not-acknowledge and ends the transaction.
\<close>

theorem C4_example_write_counterexample:
  "has_device test_dir 0x51
   \<and> snd (feed test_dir (i2c_gpio_init, []) (write_txn (std_frame 0xA3) [std_frame 0x42] []))
     = [HasDevice 0x51, Start 0x51, Read 0x51 0x53, Stop 0x51]
   \<and> Write 0x51 0x42 \<notin> set (snd (feed test_dir (i2c_gpio_init, [])
                                   (write_txn (std_frame 0xA3) [std_frame 0x42] [])))"
  by code_simp

section \<open>An address without a device, on a fresh device\<close>

text \<open>
  Claim C5 at a failing input. \<open>i2c_gpio_init\<close> leaves the driver field \<open>transmit\<close> at
  0, which is not \<open>TRANSMITTER_MASTER\<close>; \<open>i2c_gpio_stop\<close> and a write address set it. On a
  fresh device the address byte \<open>0x20\<close> (address \<open>0x10\<close>, no device) leaves \<open>transmit\<close>
  at 0, so the acknowledge pulse moves the wire state to TRANSMIT. The ninth pulse of the
  next byte is then read as the master's acknowledge: with the data line low the code
  calls \<open>i2c_read\<close> for the absent address; with the data line released it calls
  \<open>i2c_stop\<close> and goes idle before any stop condition.
\<close>

theorem C5_fresh_absent_address:
  "\<not> has_device test_dir 0x10
   \<and> transmit i2c_gpio_init \<noteq> TRANSMITTER_MASTER
   \<and> state (fst (feed test_dir (i2c_gpio_init, [])
                (start_cond @ wr_frame_edges (std_frame 0x20)))) = I2C_TRANSMIT
   \<and> snd (feed test_dir (i2c_gpio_init, [])
          (start_cond @ wr_frame_edges (std_frame 0x20)
           @ wr_frame_edges ((std_frame 0x42)\<lparr>ack_lows := [0], ack_level := 0\<rparr>)))
     = [HasDevice 0x10, Read 0x10 0x11]
   \<and> feed test_dir (i2c_gpio_init, [])
          (start_cond @ wr_frame_edges (std_frame 0x20) @ wr_frame_edges (std_frame 0x42))
     = (i2c_gpio_init\<lparr>sda := 1, last_sda := 1, pos := 8, transmit := TRANSMITTER_MASTER\<rparr>,
        [HasDevice 0x10, Stop 0x10])"
  by code_simp

section \<open>The target address and open transactions\<close>

text \<open>
  Claim C6, as the code has it. In every state reachable from \<open>i2c_gpio_init\<close>, if
  \<open>slave_addr\<close> is the sentinel \<open>0xff\<close> then no transaction is open; the converse fails
  (see the counterexample). One call of \<open>i2c_gpio_set\<close> appends its directory calls to
  the trace; it issues \<open>Start a\<close> only when it moves \<open>slave_addr\<close> from the sentinel to
  \<open>a\<close>, an address with a device, and it issues \<open>Stop a\<close> only when \<open>slave_addr\<close> was
  \<open>a\<close> and the call resets it to the sentinel and the wire state to IDLE.
\<close>

theorem C6_sentinel_closed:
  "(slave_addr (fst (feed D (i2c_gpio_init, []) es)) = 0xff
      \<longrightarrow> \<not> open_txn (snd (feed D (i2c_gpio_init, []) es)))
   \<and> snd (i2c_gpio_set D (dev, tr) c d) = tr @ emitted D (dev, tr) c d
   \<and> (Start a \<in> set (emitted D (dev, tr) c d)
        \<longrightarrow> slave_addr dev = 0xff \<and> slave_addr (fst (i2c_gpio_set D (dev, tr) c d)) = a
            \<and> has_device D a)
   \<and> (Stop a \<in> set (emitted D (dev, tr) c d)
        \<longrightarrow> slave_addr dev = a \<and> slave_addr (fst (i2c_gpio_set D (dev, tr) c d)) = 0xff
            \<and> state (fst (i2c_gpio_set D (dev, tr) c d)) = I2C_IDLE)"
proof -
  have "addr_inv (feed D (i2c_gpio_init, []) es)"
    using init_inv by (rule feed_inv)
  then have 1: "slave_addr (fst (feed D (i2c_gpio_init, []) es)) = 0xff
      \<longrightarrow> \<not> open_txn (snd (feed D (i2c_gpio_init, []) es))"
    by (simp add: addr_inv_def)
  show ?thesis
    using 1 set_emitted [of D dev tr c d] set_lockstep [of D dev tr c d]
    unfolding lockstep_def by blast
qed

theorem C6_sentinel_closed_witness:
  "slave_addr (fst (feed test_dir (i2c_gpio_init, [])
       (write_txn (std_frame 0xA2) [std_frame 0x42] []))) = 0xff
   \<and> \<not> open_txn (snd (feed test_dir (i2c_gpio_init, [])
       (write_txn (std_frame 0xA2) [std_frame 0x42] [])))
   \<and> Start 0x51 \<in> set (emitted test_dir
         (i2c_gpio_init\<lparr>scl := 0, state := I2C_RECEIVE, pos := 7, byte := 0x51\<rparr>, []) 1 0)
   \<and> slave_addr (fst (i2c_gpio_set test_dir
         (i2c_gpio_init\<lparr>scl := 0, state := I2C_RECEIVE, pos := 7, byte := 0x51\<rparr>, []) 1 0)) = 0x51
   \<and> Stop 0x51 \<in> set (emitted test_dir
         (i2c_gpio_init\<lparr>state := I2C_RECEIVE, slave_state := SLAVE_RECEIVEDATA,
                         slave_addr := 0x51\<rparr>, []) 1 1)
   \<and> state (fst (i2c_gpio_set test_dir
         (i2c_gpio_init\<lparr>state := I2C_RECEIVE, slave_state := SLAVE_RECEIVEDATA,
                         slave_addr := 0x51\<rparr>, []) 1 1)) = I2C_IDLE"
proof -
  have 1: "slave_addr (fst (feed test_dir (i2c_gpio_init, [])
       (write_txn (std_frame 0xA2) [std_frame 0x42] []))) = 0xff"
    by code_simp
  have 2: "Start 0x51 \<in> set (emitted test_dir
         (i2c_gpio_init\<lparr>scl := 0, state := I2C_RECEIVE, pos := 7, byte := 0x51\<rparr>, []) 1 0)"
    by code_simp
  have 3: "Stop 0x51 \<in> set (emitted test_dir
         (i2c_gpio_init\<lparr>state := I2C_RECEIVE, slave_state := SLAVE_RECEIVEDATA,
                         slave_addr := 0x51\<rparr>, []) 1 1)"
    by code_simp
  show ?thesis
    using 1 2 3
      C6_sentinel_closed [of test_dir "write_txn (std_frame 0xA2) [std_frame 0x42] []"]
      C6_sentinel_closed [of test_dir _
         "i2c_gpio_init\<lparr>scl := 0, state := I2C_RECEIVE, pos := 7, byte := 0x51\<rparr>" "[]" 1 0 "0x51"]
      C6_sentinel_closed [of test_dir _
         "i2c_gpio_init\<lparr>state := I2C_RECEIVE, slave_state := SLAVE_RECEIVEDATA,
                         slave_addr := 0x51\<rparr>" "[]" 1 1 "0x51"]
    by blast
qed

text \<open>
  The claim as stated fails from right to left: after a start and the address byte
  \<open>0x20\<close>, which names the address \<open>0x10\<close> without a device, \<open>slave_addr\<close> is \<open>0x10\<close> and
  not the sentinel, and no transaction is open. It also fails from left to right if an
  open transaction can only be closed by a \<open>Stop\<close> for its own address: after a write to
  \<open>0x51\<close>, a repeated start, a write to \<open>0x52\<close> and a stop, \<open>slave_addr\<close> is the sentinel,
  \<open>Start 0x51\<close> was issued and no \<open>Stop 0x51\<close>.
\<close>

theorem C6_sentinel_closed_counterexample:
  "slave_addr (fst (feed test_dir (i2c_gpio_init, [])
       (start_cond @ wr_frame_edges (std_frame 0x20)))) = 0x10
   \<and> snd (feed test_dir (i2c_gpio_init, [])
       (start_cond @ wr_frame_edges (std_frame 0x20))) = [HasDevice 0x10]
   \<and> \<not> open_txn (snd (feed test_dir (i2c_gpio_init, [])
       (start_cond @ wr_frame_edges (std_frame 0x20))))
   \<and> \<not> (slave_addr (fst (feed test_dir (i2c_gpio_init, [])
             (start_cond @ wr_frame_edges (std_frame 0x20)))) = 0xff
         \<longleftrightarrow> \<not> open_txn (snd (feed test_dir (i2c_gpio_init, [])
             (start_cond @ wr_frame_edges (std_frame 0x20)))))
   \<and> feed test_dir (i2c_gpio_init, [])
         (start_cond @ wr_frame_edges (std_frame 0xA2) @ rep_start []
          @ wr_frame_edges (std_frame 0xA4) @ wr_frame_edges (std_frame 0x42) @ stop_cond [])
     = (i2c_gpio_init\<lparr>sda := 0, last_sda := 1, pos := 1, transmit := TRANSMITTER_MASTER,
                       byte := 0x84\<rparr>,
        [HasDevice 0x51, Start 0x51, HasDevice 0x52, Write 0x52 0x42, Stop 0x52])
   \<and> slave_addr (i2c_gpio_init\<lparr>sda := 0, last_sda := 1, pos := 1,
                       transmit := TRANSMITTER_MASTER, byte := 0x84\<rparr>) = 0xff"
  by code_simp

section \<open>Calls that repeat the levels of the call before\<close>










section \<open>A stop after an address without a device\<close>

text \<open>
  Claim C9 at a failing input. \<open>i2c_gpio_write\<close> stores the new address in \<open>slave_addr\<close>
  before it asks the directory whether the address has a device, so after the address
  byte \<open>0x20\<close> (address \<open>0x10\<close>, no device) the byte state is \<open>SLAVE_INVALID\<close>,
  \<open>slave_addr\<close> is \<open>0x10\<close> and the only directory call was \<open>HasDevice 0x10\<close>. On a fresh
  device the driver field \<open>transmit\<close> is still 0, not \<open>TRANSMITTER_MASTER\<close>, so the
  acknowledge pulse moves the wire state to TRANSMIT, whose case has no test for a stop
  bit. The stop condition that follows (clock low, clock high with data low, data high)
  is not seen: its rising clock is taken as the edge of a transmitted bit, no \<open>i2c_stop\<close>
  is called, the wire state stays TRANSMIT and the byte state \<open>SLAVE_INVALID\<close>. A second
  and a third stop condition change nothing of that. The same calls after one
  start and stop, which leave the driver field \<open>TRANSMITTER_MASTER\<close>, call \<open>i2c_stop\<close>
  for \<open>0x10\<close> without any \<open>i2c_start\<close>, as lemma \<open>absent_txn\<close> shows for every address
  without a device.
\<close>

theorem C9_fresh_stop_not_seen:
  "\<not> has_device test_dir 0x10
   \<and> transmit i2c_gpio_init \<noteq> TRANSMITTER_MASTER
   \<and> write_txn (std_frame 0x20) [] []
     = start_cond @ wr_frame_edges (std_frame 0x20) @ [(0, 0), (1, 0), (1, 1)]
   \<and> feed test_dir (i2c_gpio_init, []) (start_cond @ wr_frame_edges (std_frame 0x20))
     = (\<lparr> scl = 1, sda = 0, state = I2C_TRANSMIT, slave_state = SLAVE_INVALID,
          slave_addr = 0x10, slave_rw = 0, last_sda = 0, pos = 0,
          transmit = 0, byte = 0x20 \<rparr>,
        [HasDevice 0x10])
   \<and> feed test_dir (i2c_gpio_init, []) (write_txn (std_frame 0x20) [] [])
     = (\<lparr> scl = 1, sda = 0, state = I2C_TRANSMIT, slave_state = SLAVE_INVALID,
          slave_addr = 0x10, slave_rw = 0, last_sda = 1, pos = 1,
          transmit = 0, byte = 0x40 \<rparr>,
        [HasDevice 0x10])
   \<and> snd (feed test_dir (i2c_gpio_init, [])
          (write_txn (std_frame 0x20) [] [] @ stop_cond [] @ stop_cond [0]))
     = [HasDevice 0x10]
   \<and> state (fst (feed test_dir (i2c_gpio_init, [])
          (write_txn (std_frame 0x20) [] [] @ stop_cond [] @ stop_cond [0]))) = I2C_TRANSMIT
   \<and> feed test_dir (i2c_gpio_init, []) [(1, 1), (1, 0), (1, 1)]
     = (i2c_gpio_init\<lparr>last_sda := 1, transmit := TRANSMITTER_MASTER\<rparr>, [])
   \<and> snd (feed test_dir (i2c_gpio_init, [])
          ([(1, 1), (1, 0), (1, 1)] @ write_txn (std_frame 0x20) [] []))
     = [HasDevice 0x10, Stop 0x10]"
  by code_simp

end
